theory Spec2Isabelle
  imports Complex_Main "HOL-Library.Monad_Syntax"
begin

section \<open>Python values and the element tree\<close>

text \<open>
  The two programs, \<^verbatim>\<open>MeshToObj.py\<close> and \<^verbatim>\<open>recalculate_normals.py\<close>, work on the
  tree that \<^verbatim>\<open>xml.etree.ElementTree\<close> parses from a mesh file.  An element has a tag,
  an ordered attribute dictionary of strings, a text, a tail and its children.

  A Python float is modelled by the real number it stands for, and every arithmetic
  operation rounds its exact result to the nearest double (section on floats below).
  The builtins \<^verbatim>\<open>int(s)\<close>, \<^verbatim>\<open>float(s)\<close> and the format \<^verbatim>\<open>{:.6f}\<close> are
  parameters of the model (a \<open>pyenv\<close>); \<open>None\<close> from a decoder is the \<^verbatim>\<open>ValueError\<close>
  the builtin raises.  A function that returns \<open>None\<close> models a call that leaves by an
  exception nothing in the function catches.
\<close>

datatype elem =
  Elem (tag: string) (attrib: "(string \<times> string) list")
       (etext: "string option") (etail: "string option") (kids: "elem list")

record pyenv =
  py_int :: "string \<Rightarrow> int option"
  py_float :: "string \<Rightarrow> real option"
  fmt6 :: "real \<Rightarrow> string"

type_synonym vec3 = "real \<times> real \<times> real"
type_synonym vec2 = "real \<times> real"

definition elem_get :: "elem \<Rightarrow> string \<Rightarrow> string option" where
  "elem_get e k = map_of (attrib e) k"

definition elem_get_default :: "elem \<Rightarrow> string \<Rightarrow> string \<Rightarrow> string" where
  "elem_get_default e k d = (case elem_get e k of None \<Rightarrow> d | Some s \<Rightarrow> s)"

definition elem_find :: "elem \<Rightarrow> string \<Rightarrow> elem option" where
  "elem_find e t = List.find (\<lambda>c. tag c = t) (kids e)"

definition elem_findall :: "elem \<Rightarrow> string \<Rightarrow> elem list" where
  "elem_findall e t = filter (\<lambda>c. tag c = t) (kids e)"

definition lower_char :: "char \<Rightarrow> char" where
  "lower_char c =
     (if 65 \<le> (of_char c :: nat) \<and> (of_char c :: nat) \<le> 90
      then char_of ((of_char c :: nat) + 32) else c)"

definition lower :: "string \<Rightarrow> string" where
  "lower s = map lower_char s"

definition startswith :: "string \<Rightarrow> string \<Rightarrow> bool" where
  "startswith s p = (take (length p) s = p)"

text \<open>\<^verbatim>\<open>float(e.get(k, 0))\<close>: the default is the number 0, a string is decoded.\<close>

definition float_attr :: "pyenv \<Rightarrow> elem \<Rightarrow> string \<Rightarrow> real option" where
  "float_attr py e k = (case elem_get e k of None \<Rightarrow> Some 0 | Some s \<Rightarrow> py_float py s)"

definition read_xyz :: "pyenv \<Rightarrow> elem \<Rightarrow> vec3 option" where
  "read_xyz py e =
     do { x \<leftarrow> float_attr py e ''x'';
          y \<leftarrow> float_attr py e ''y'';
          z \<leftarrow> float_attr py e ''z'';
          Some (x, y, z) }"

fun fold_opt :: "('a \<Rightarrow> 's \<Rightarrow> 's option) \<Rightarrow> 'a list \<Rightarrow> 's \<Rightarrow> 's option" where
  "fold_opt f [] s = Some s"
| "fold_opt f (x # xs) s = Option.bind (f x s) (fold_opt f xs)"

section \<open>Floats\<close>

text \<open>
  The arithmetic of Python floats, which are IEEE 754 doubles: the result of \<^verbatim>\<open>+\<close>, \<^verbatim>\<open>-\<close>,
  \<^verbatim>\<open>*\<close>, \<^verbatim>\<open>/\<close> and \<^verbatim>\<open>math.sqrt\<close> is the exact result rounded to the nearest double,
  a tie going to the double with the even significand.  A double with binary exponent
  \<open>e\<close> is a multiple of \<open>2 ^ (e - 52)\<close>; below \<open>2 ^ (- 1022)\<close> the doubles are the multiples
  of \<open>2 ^ (- 1074)\<close>.  Overflow to an infinity, NaN and the sign of zero are not modelled:
  the model is that of the code as long as no result reaches \<open>2 ^ 1024\<close> in size.
  The programs divide by a computed length above the threshold or by a face count above
  zero only, so \<^verbatim>\<open>ZeroDivisionError\<close> is never raised.
\<close>

definition pow2 :: "int \<Rightarrow> real" where
  "pow2 k = (if 0 \<le> k then 2 ^ nat k else 1 / 2 ^ nat (- k))"

definition round_even :: "real \<Rightarrow> int" where
  "round_even r =
     (if r - of_int \<lfloor>r\<rfloor> < 1 / 2 then \<lfloor>r\<rfloor>
      else if 1 / 2 < r - of_int \<lfloor>r\<rfloor> then \<lfloor>r\<rfloor> + 1
      else if even \<lfloor>r\<rfloor> then \<lfloor>r\<rfloor> else \<lfloor>r\<rfloor> + 1)"

text \<open>The distance between the doubles around \<open>x\<close>.\<close>

definition quantum :: "real \<Rightarrow> real" where
  "quantum x = pow2 (max \<lfloor>log 2 \<bar>x\<bar>\<rfloor> (- 1022) - 52)"

definition rd :: "real \<Rightarrow> real" where
  "rd x = (if x = 0 then 0 else of_int (round_even (x / quantum x)) * quantum x)"

definition fadd :: "real \<Rightarrow> real \<Rightarrow> real" where
  "fadd a b = rd (a + b)"

definition fsub :: "real \<Rightarrow> real \<Rightarrow> real" where
  "fsub a b = rd (a - b)"

definition fmul :: "real \<Rightarrow> real \<Rightarrow> real" where
  "fmul a b = rd (a * b)"

definition fdiv :: "real \<Rightarrow> real \<Rightarrow> real" where
  "fdiv a b = rd (a / b)"

definition fsqrt :: "real \<Rightarrow> real" where
  "fsqrt a = rd (sqrt a)"

section \<open>MeshToObj: merging the vertex buffers of a geometry block\<close>

text \<open>
  \<^verbatim>\<open>OgreXMLToOBJ\<close> keeps four lists.  A face is stored with its three output indices.
\<close>

record submesh =
  material :: string
  faces :: "(int \<times> int \<times> int) list"
  index :: nat

record conv =
  vertices :: "vec3 list"
  normals :: "vec3 list"
  uvs :: "vec2 list"
  submeshes :: "submesh list"

definition conv_init :: conv where
  "conv_init = \<lparr>vertices = [], normals = [], uvs = [], submeshes = []\<rparr>"

text \<open>The local containers of \<^verbatim>\<open>_parse_geometry\<close> and its two flags.\<close>

record mstate =
  local_verts :: "vec3 option list"
  local_normals :: "vec3 option list"
  local_uvs :: "vec2 option list"
  any_normals :: bool
  any_uvs :: bool

definition mstate_init :: "int \<Rightarrow> mstate" where
  "mstate_init vertex_count =
     \<lparr>local_verts = replicate (nat vertex_count) None,
      local_normals = replicate (nat vertex_count) None,
      local_uvs = replicate (nat vertex_count) None,
      any_normals = False, any_uvs = False\<rparr>"

text \<open>
  The vertex count: the \<^verbatim>\<open>vertexcount\<close> attribute, else the number of vertex records
  of the first vertex buffer, else the early \<^verbatim>\<open>return 0\<close> (the inner \<open>None\<close>).
\<close>

definition vertex_count_of :: "pyenv \<Rightarrow> elem \<Rightarrow> int option option" where
  "vertex_count_of py geom_elem =
     (case elem_get geom_elem ''vertexcount'' of
        Some s \<Rightarrow> map_option Some (py_int py s)
      | None \<Rightarrow>
          (case elem_find geom_elem ''vertexbuffer'' of
             Some first_vb \<Rightarrow> Some (Some (int (length (elem_findall first_vb ''vertex''))))
           | None \<Rightarrow> Some None))"

definition find_texcoord :: "elem \<Rightarrow> elem option" where
  "find_texcoord vertex =
     (case elem_find vertex ''texcoord'' of
        Some t \<Rightarrow> Some t
      | None \<Rightarrow> List.find (\<lambda>child. startswith (tag child) ''texcoord'') (kids vertex))"

text \<open>\<^verbatim>\<open>1.0 - v\<close>, a float subtraction.\<close>

definition flip_v :: "real \<Rightarrow> real" where
  "flip_v v = fsub 1 v"

definition read_uv :: "pyenv \<Rightarrow> elem \<Rightarrow> vec2 option" where
  "read_uv py texcoord =
     do { u \<leftarrow> float_attr py texcoord ''u'';
          v \<leftarrow> float_attr py texcoord ''v'';
          Some (u, flip_v v) }"

definition set_position :: "pyenv \<Rightarrow> bool \<Rightarrow> nat \<Rightarrow> elem \<Rightarrow> mstate \<Rightarrow> mstate option" where
  "set_position py has_positions i vertex ms =
     (if has_positions then
        (case elem_find vertex ''position'' of
           None \<Rightarrow> Some ms
         | Some pos \<Rightarrow>
             do { p \<leftarrow> read_xyz py pos;
                  Some (ms\<lparr>local_verts := (local_verts ms)[i := Some p]\<rparr>) })
      else Some ms)"

definition set_normal :: "pyenv \<Rightarrow> bool \<Rightarrow> nat \<Rightarrow> elem \<Rightarrow> mstate \<Rightarrow> mstate option" where
  "set_normal py has_normals i vertex ms =
     (if has_normals then
        (case elem_find vertex ''normal'' of
           None \<Rightarrow> Some ms
         | Some normal \<Rightarrow>
             do { n \<leftarrow> read_xyz py normal;
                  Some (ms\<lparr>local_normals := (local_normals ms)[i := Some n],
                           any_normals := True\<rparr>) })
      else Some ms)"

definition set_uv :: "pyenv \<Rightarrow> bool \<Rightarrow> nat \<Rightarrow> elem \<Rightarrow> mstate \<Rightarrow> mstate option" where
  "set_uv py has_texcoords i vertex ms =
     (if has_texcoords then
        (case find_texcoord vertex of
           None \<Rightarrow> Some ms
         | Some texcoord \<Rightarrow>
             do { uv \<leftarrow> read_uv py texcoord;
                  Some (ms\<lparr>local_uvs := (local_uvs ms)[i := Some uv],
                           any_uvs := True\<rparr>) })
      else Some ms)"

text \<open>The body of the inner loop for vertex record \<open>i\<close> of one vertex buffer.\<close>

definition merge_vertex ::
  "pyenv \<Rightarrow> bool \<times> bool \<times> bool \<Rightarrow> nat \<Rightarrow> elem \<Rightarrow> mstate \<Rightarrow> mstate option" where
  "merge_vertex py flags i vertex ms =
     (case flags of (has_positions, has_normals, has_texcoords) \<Rightarrow>
        do { ms1 \<leftarrow> set_position py has_positions i vertex ms;
             ms2 \<leftarrow> set_normal py has_normals i vertex ms1;
             set_uv py has_texcoords i vertex ms2 })"

text \<open>
  \<^verbatim>\<open>for i, vertex in enumerate(vb.findall('vertex'))\<close> with its
  \<^verbatim>\<open>if i >= vertex_count: break\<close>.
\<close>

fun merge_vertices ::
  "pyenv \<Rightarrow> int \<Rightarrow> bool \<times> bool \<times> bool \<Rightarrow> nat \<Rightarrow> elem list \<Rightarrow> mstate \<Rightarrow> mstate option" where
  "merge_vertices py vertex_count flags i [] ms = Some ms"
| "merge_vertices py vertex_count flags i (vertex # rest) ms =
     (if int i \<ge> vertex_count then Some ms
      else Option.bind (merge_vertex py flags i vertex ms)
             (merge_vertices py vertex_count flags (Suc i) rest))"

definition is_true :: "string \<Rightarrow> bool" where
  "is_true s = (lower s = ''true'')"

text \<open>\<^verbatim>\<open>int(vb.get('texture_coords', '0') or 0)\<close>: the empty string counts as 0.\<close>

definition tex_coords_of :: "pyenv \<Rightarrow> elem \<Rightarrow> int option" where
  "tex_coords_of py vb =
     (let s = elem_get_default vb ''texture_coords'' ''0''
      in if s = [] then Some 0 else py_int py s)"

definition vb_flags :: "pyenv \<Rightarrow> elem \<Rightarrow> (bool \<times> bool \<times> bool) option" where
  "vb_flags py vb =
     do { tex_coords \<leftarrow> tex_coords_of py vb;
          Some (is_true (elem_get_default vb ''positions'' ''false''),
                is_true (elem_get_default vb ''normals'' ''false''),
                tex_coords > 0) }"

definition merge_vb :: "pyenv \<Rightarrow> int \<Rightarrow> elem \<Rightarrow> mstate \<Rightarrow> mstate option" where
  "merge_vb py vertex_count vb ms =
     do { flags \<leftarrow> vb_flags py vb;
          merge_vertices py vertex_count flags 0 (elem_findall vb ''vertex'') ms }"

text \<open>The merge of all vertex buffers of a block, in declaration order.\<close>

definition merge_vbs :: "pyenv \<Rightarrow> int \<Rightarrow> elem list \<Rightarrow> mstate \<Rightarrow> mstate option" where
  "merge_vbs py vertex_count vbs ms = fold_opt (merge_vb py vertex_count) vbs ms"

definition merge_raw :: "pyenv \<Rightarrow> int \<Rightarrow> elem \<Rightarrow> mstate option" where
  "merge_raw py vertex_count geom_elem =
     merge_vbs py vertex_count (elem_findall geom_elem ''vertexbuffer'')
       (mstate_init vertex_count)"

text \<open>Filling the defaults (lines 200 to 217): the three sequences the block contributes.\<close>

definition fill_verts :: "mstate \<Rightarrow> vec3 list" where
  "fill_verts ms = map (\<lambda>v. case v of None \<Rightarrow> (0, 0, 0) | Some p \<Rightarrow> p) (local_verts ms)"

definition fill_normals :: "mstate \<Rightarrow> vec3 list" where
  "fill_normals ms =
     (if any_normals ms
      then map (\<lambda>v. case v of None \<Rightarrow> (0, 1, 0) | Some n \<Rightarrow> n) (local_normals ms)
      else [])"

definition fill_uvs :: "mstate \<Rightarrow> vec2 list" where
  "fill_uvs ms =
     (if any_uvs ms
      then map (\<lambda>v. case v of None \<Rightarrow> (0, 0) | Some uv \<Rightarrow> uv) (local_uvs ms)
      else [])"

text \<open>\<^verbatim>\<open>_parse_geometry\<close>: the global lists are extended by the block's sequences.\<close>

definition extend_conv :: "mstate \<Rightarrow> conv \<Rightarrow> conv" where
  "extend_conv ms st =
     st\<lparr>vertices := vertices st @ fill_verts ms,
        normals := normals st @ fill_normals ms,
        uvs := uvs st @ fill_uvs ms\<rparr>"

definition parse_geometry :: "pyenv \<Rightarrow> elem \<Rightarrow> conv \<Rightarrow> conv option" where
  "parse_geometry py geom_elem st =
     (case vertex_count_of py geom_elem of
        None \<Rightarrow> None
      | Some None \<Rightarrow> Some st
      | Some (Some vertex_count) \<Rightarrow>
          map_option (\<lambda>ms. extend_conv ms st) (merge_raw py vertex_count geom_elem))"

section \<open>MeshToObj: submeshes and the whole parse\<close>

text \<open>\<^verbatim>\<open>str(n)\<close> of a Python integer, as the f-strings print it.\<close>

fun show_nat :: "nat \<Rightarrow> string" where
  "show_nat n =
     (if n < 10 then [''0123456789'' ! n]
      else show_nat (n div 10) @ [''0123456789'' ! (n mod 10)])"

declare show_nat.simps [simp del]

definition show_int :: "int \<Rightarrow> string" where
  "show_int i = (if i < 0 then CHR ''-'' # show_nat (nat (- i)) else show_nat (nat i))"

fun map_opt :: "('a \<Rightarrow> 'b option) \<Rightarrow> 'a list \<Rightarrow> 'b list option" where
  "map_opt f [] = Some []"
| "map_opt f (x # xs) = do { y \<leftarrow> f x; ys \<leftarrow> map_opt f xs; Some (y # ys) }"

text \<open>\<^verbatim>\<open>int(face.get(k))\<close>: a missing attribute is \<^verbatim>\<open>int(None)\<close>, a \<^verbatim>\<open>TypeError\<close>.\<close>

definition int_attr :: "pyenv \<Rightarrow> elem \<Rightarrow> string \<Rightarrow> int option" where
  "int_attr py e k = (case elem_get e k of None \<Rightarrow> None | Some s \<Rightarrow> py_int py s)"

definition face_of :: "pyenv \<Rightarrow> int \<Rightarrow> elem \<Rightarrow> (int \<times> int \<times> int) option" where
  "face_of py vertex_offset face =
     do { a \<leftarrow> int_attr py face ''v1'';
          b \<leftarrow> int_attr py face ''v2'';
          c \<leftarrow> int_attr py face ''v3'';
          Some (a + vertex_offset + 1, b + vertex_offset + 1, c + vertex_offset + 1) }"

definition uses_shared :: "elem \<Rightarrow> bool" where
  "uses_shared submesh_elem = is_true (elem_get_default submesh_elem ''usesharedvertices'' ''false'')"

text \<open>
  The first half of \<^verbatim>\<open>_parse_submesh\<close>: the vertex offset and the state after the local
  geometry, if any, was merged.
\<close>

definition submesh_geometry :: "pyenv \<Rightarrow> elem \<Rightarrow> conv \<Rightarrow> (int \<times> conv) option" where
  "submesh_geometry py submesh_elem st =
     (let vertex_offset = int (length (vertices st))
      in if \<not> uses_shared submesh_elem then
           (case elem_find submesh_elem ''geometry'' of
              None \<Rightarrow> Some (vertex_offset, st)
            | Some geom \<Rightarrow>
                map_option (\<lambda>st'. (int (length (vertices st)), st')) (parse_geometry py geom st))
         else Some (0, st))"

definition submesh_faces :: "pyenv \<Rightarrow> int \<Rightarrow> elem \<Rightarrow> (int \<times> int \<times> int) list option" where
  "submesh_faces py vertex_offset submesh_elem =
     (case elem_find submesh_elem ''faces'' of
        None \<Rightarrow> Some []
      | Some faces_elem \<Rightarrow> map_opt (face_of py vertex_offset) (elem_findall faces_elem ''face''))"

definition parse_submesh :: "pyenv \<Rightarrow> elem \<Rightarrow> nat \<Rightarrow> conv \<Rightarrow> conv option" where
  "parse_submesh py submesh_elem submesh_idx st =
     do { (vertex_offset, st1) \<leftarrow> submesh_geometry py submesh_elem st;
          local_faces \<leftarrow> submesh_faces py vertex_offset submesh_elem;
          Some (st1\<lparr>submeshes := submeshes st1 @
                  [\<lparr>material = elem_get_default submesh_elem ''material''
                                 (''material_'' @ show_nat submesh_idx),
                    faces = local_faces, index = submesh_idx\<rparr>]\<rparr>) }"

fun parse_submeshes :: "pyenv \<Rightarrow> nat \<Rightarrow> elem list \<Rightarrow> conv \<Rightarrow> conv option" where
  "parse_submeshes py idx [] st = Some st"
| "parse_submeshes py idx (submesh_elem # rest) st =
     Option.bind (parse_submesh py submesh_elem idx st) (parse_submeshes py (Suc idx) rest)"

definition parse_mesh_xml :: "pyenv \<Rightarrow> elem \<Rightarrow> conv option" where
  "parse_mesh_xml py xml_root =
     do { st1 \<leftarrow> (case elem_find xml_root ''sharedgeometry'' of
                   None \<Rightarrow> Some conv_init
                 | Some shared_geom \<Rightarrow> parse_geometry py shared_geom conv_init);
          (case elem_find xml_root ''submeshes'' of
             None \<Rightarrow> Some st1
           | Some sms \<Rightarrow> parse_submeshes py 0 (elem_findall sms ''submesh'') st1) }"

section \<open>MeshToObj: writing the OBJ file\<close>

text \<open>
  The file is modelled as the list of its lines, without the line ends.  \<open>base_name\<close> is
  the stem of the output path and \<open>mtl_name\<close> the file name of the material library,
  \<open>None\<close> when no library is written.
\<close>

definition have_uvs :: "conv \<Rightarrow> bool" where
  "have_uvs st \<longleftrightarrow> length (uvs st) = length (vertices st) \<and> length (uvs st) > 0"

definition have_normals :: "conv \<Rightarrow> bool" where
  "have_normals st \<longleftrightarrow> length (normals st) = length (vertices st) \<and> length (normals st) > 0"

definition ref_vtn :: "int \<Rightarrow> string" where
  "ref_vtn i = show_int i @ ''/'' @ show_int i @ ''/'' @ show_int i"

definition ref_vt :: "int \<Rightarrow> string" where
  "ref_vt i = show_int i @ ''/'' @ show_int i"

definition ref_vn :: "int \<Rightarrow> string" where
  "ref_vn i = show_int i @ ''//'' @ show_int i"

definition face_with :: "(int \<Rightarrow> string) \<Rightarrow> int \<times> int \<times> int \<Rightarrow> string" where
  "face_with r face = (case face of (a, b, c) \<Rightarrow> ''f '' @ r a @ '' '' @ r b @ '' '' @ r c)"

definition face_line :: "bool \<Rightarrow> bool \<Rightarrow> int \<times> int \<times> int \<Rightarrow> string" where
  "face_line hu hn face =
     (if hu \<and> hn then face_with ref_vtn face
      else if hu then face_with ref_vt face
      else if hn then face_with ref_vn face
      else face_with show_int face)"

definition blank :: string where
  "blank = []"

definition submesh_lines ::
  "string \<Rightarrow> string option \<Rightarrow> bool \<Rightarrow> bool \<Rightarrow> nat \<times> submesh \<Rightarrow> string list" where
  "submesh_lines base_name mtl_name hu hn p =
     (case p of (idx, sm) \<Rightarrow>
        [''# Submesh - '' @ material sm,
         ''o '' @ base_name @ ''_part'' @ show_nat idx,
         ''g '' @ material sm]
        @ (case mtl_name of None \<Rightarrow> [] | Some m \<Rightarrow> [''usemtl '' @ material sm])
        @ map (face_line hu hn) (faces sm)
        @ [blank])"

definition write_obj :: "pyenv \<Rightarrow> string \<Rightarrow> string option \<Rightarrow> conv \<Rightarrow> string list" where
  "write_obj py base_name mtl_name st =
     [''# Converted from Ogre mesh format'',
      ''# Vertices: '' @ show_nat (length (vertices st)),
      ''# Faces: '' @ show_nat (sum_list (map (\<lambda>sm. length (faces sm)) (submeshes st))),
      blank]
     @ (case mtl_name of None \<Rightarrow> [] | Some m \<Rightarrow> [''mtllib '' @ m, blank])
     @ map (\<lambda>(x, y, z). ''v '' @ fmt6 py x @ '' '' @ fmt6 py y @ '' '' @ fmt6 py z) (vertices st)
     @ [blank]
     @ map (\<lambda>(u, v). ''vt '' @ fmt6 py u @ '' '' @ fmt6 py v) (uvs st)
     @ [blank]
     @ map (\<lambda>(x, y, z). ''vn '' @ fmt6 py x @ '' '' @ fmt6 py y @ '' '' @ fmt6 py z) (normals st)
     @ [blank]
     @ concat (map (submesh_lines base_name mtl_name (have_uvs st) (have_normals st))
                 (enumerate 0 (submeshes st)))"

section \<open>recalculate_normals: vectors and face normals\<close>

text \<open>
  The class \<^verbatim>\<open>Vector3\<close>, on triples of floats.  Each operation is the float operation of
  the source, in the source's order of evaluation.
\<close>

definition v_add :: "vec3 \<Rightarrow> vec3 \<Rightarrow> vec3" where
  "v_add a b =
     (case a of (ax, ay, az) \<Rightarrow> case b of (bx, by, bz) \<Rightarrow> (fadd ax bx, fadd ay by, fadd az bz))"

definition v_sub :: "vec3 \<Rightarrow> vec3 \<Rightarrow> vec3" where
  "v_sub a b =
     (case a of (ax, ay, az) \<Rightarrow> case b of (bx, by, bz) \<Rightarrow> (fsub ax bx, fsub ay by, fsub az bz))"

definition v_mul :: "vec3 \<Rightarrow> real \<Rightarrow> vec3" where
  "v_mul a scalar = (case a of (ax, ay, az) \<Rightarrow> (fmul ax scalar, fmul ay scalar, fmul az scalar))"

definition cross :: "vec3 \<Rightarrow> vec3 \<Rightarrow> vec3" where
  "cross a b =
     (case a of (ax, ay, az) \<Rightarrow> case b of (bx, by, bz) \<Rightarrow>
        (fsub (fmul ay bz) (fmul az by),
         fsub (fmul az bx) (fmul ax bz),
         fsub (fmul ax by) (fmul ay bx)))"

definition vlength :: "vec3 \<Rightarrow> real" where
  "vlength a =
     (case a of (ax, ay, az) \<Rightarrow> fsqrt (fadd (fadd (fmul ax ax) (fmul ay ay)) (fmul az az)))"

text \<open>The literal \<^verbatim>\<open>0.000001\<close> is the double nearest to one millionth.\<close>

definition threshold :: real where
  "threshold = rd (1 / 1000000)"

definition normalize :: "vec3 \<Rightarrow> vec3" where
  "normalize a =
     (case a of (ax, ay, az) \<Rightarrow>
        if vlength a > threshold
        then (fdiv ax (vlength a), fdiv ay (vlength a), fdiv az (vlength a))
        else (0, 0, 1))"

definition calculate_face_normal :: "vec3 \<Rightarrow> vec3 \<Rightarrow> vec3 \<Rightarrow> vec3" where
  "calculate_face_normal v1 v2 v3 = normalize (cross (v_sub v2 v1) (v_sub v3 v1))"

section \<open>recalculate_normals: elements of the tree by their paths\<close>

text \<open>
  The pass changes the tree in place.  An element is identified by its path, the list of
  child positions that leads to it from the root; the pass only sets attributes and
  appends children, so a path keeps naming the same element.
\<close>

primrec get_at :: "nat list \<Rightarrow> elem \<Rightarrow> elem option" where
  "get_at [] e = Some e"
| "get_at (i # p) e = (if i < length (kids e) then get_at p (kids e ! i) else None)"

primrec upd_at :: "(elem \<Rightarrow> elem) \<Rightarrow> nat list \<Rightarrow> elem \<Rightarrow> elem" where
  "upd_at f [] e = f e"
| "upd_at f (i # p) e =
     (if i < length (kids e)
      then Elem (tag e) (attrib e) (etext e) (etail e) ((kids e)[i := upd_at f p (kids e ! i)])
      else e)"

text \<open>
  The paths of all proper descendants in document order, as \<^verbatim>\<open>Element.iter\<close> visits
  them; \<^verbatim>\<open>find('.//t')\<close> is the first of them with tag \<open>t\<close>.
\<close>

lemma size_nth_kid: "i < length ks \<Longrightarrow> size (ks ! i) < Suc (size_list size ks)"
proof (induction ks arbitrary: i)
  case Nil
  then show ?case by simp
next
  case (Cons k ks)
  then show ?case by (cases i) (simp, force)
qed

function desc_paths :: "elem \<Rightarrow> nat list list" where
  "desc_paths (Elem t a xt xl ks) =
     concat (map (\<lambda>i. [i] # map ((#) i) (desc_paths (ks ! i))) [0..<length ks])"
  by pat_completeness auto
termination
  by (relation "measure size") (auto simp: size_nth_kid)

definition findall_desc :: "elem \<Rightarrow> string \<Rightarrow> nat list list" where
  "findall_desc e t = filter (\<lambda>p. map_option tag (get_at p e) = Some t) (desc_paths e)"

definition find_desc :: "elem \<Rightarrow> string \<Rightarrow> nat list option" where
  "find_desc e t = (case findall_desc e t of [] \<Rightarrow> None | p # _ \<Rightarrow> Some p)"

definition child_paths :: "elem \<Rightarrow> string \<Rightarrow> nat list list" where
  "child_paths e t = map (\<lambda>i. [i]) (filter (\<lambda>i. tag (kids e ! i) = t) [0..<length (kids e)])"

text \<open>\<^verbatim>\<open>find('.//mesh/sharedvertexdata')\<close>: the children of each descendant \<^verbatim>\<open>mesh\<close>.\<close>

definition find_mesh_sharedvertexdata :: "elem \<Rightarrow> nat list option" where
  "find_mesh_sharedvertexdata e =
     (case concat (map (\<lambda>p. case get_at p e of None \<Rightarrow> []
                              | Some m \<Rightarrow> map ((@) p) (child_paths m ''sharedvertexdata''))
                    (findall_desc e ''mesh'')) of
        [] \<Rightarrow> None
      | q # _ \<Rightarrow> Some q)"

section \<open>recalculate_normals: accumulating the face normals\<close>

text \<open>\<^verbatim>\<open>xs[i]\<close> on a list of length \<open>n\<close>: a negative index counts from the end.\<close>

definition py_index :: "nat \<Rightarrow> int \<Rightarrow> nat option" where
  "py_index n i =
     (if 0 \<le> i \<and> i < int n then Some (nat i)
      else if - int n \<le> i \<and> i < 0 then Some (nat (i + int n))
      else None)"

text \<open>\<^verbatim>\<open>int(face.get(k, 0))\<close>: the default is the number 0.\<close>

definition int_attr0 :: "pyenv \<Rightarrow> elem \<Rightarrow> string \<Rightarrow> int option" where
  "int_attr0 py e k = (case elem_get e k of None \<Rightarrow> Some 0 | Some s \<Rightarrow> py_int py s)"

definition face_indices :: "pyenv \<Rightarrow> elem \<Rightarrow> (int \<times> int \<times> int) option" where
  "face_indices py face =
     do { a \<leftarrow> int_attr0 py face ''v1'';
          b \<leftarrow> int_attr0 py face ''v2'';
          c \<leftarrow> int_attr0 py face ''v3'';
          Some (a, b, c) }"

record accum =
  vertex_normals :: "vec3 list"
  vertex_face_count :: "nat list"
  face_count :: nat

definition accum_init :: "nat \<Rightarrow> accum" where
  "accum_init vertex_count =
     \<lparr>vertex_normals = replicate vertex_count (0, 0, 0),
      vertex_face_count = replicate vertex_count 0, face_count = 0\<rparr>"

definition add_normal :: "nat \<Rightarrow> vec3 \<Rightarrow> vec3 list \<Rightarrow> vec3 list" where
  "add_normal i face_normal vns = vns[i := v_add (vns ! i) face_normal]"

definition add_count :: "nat \<Rightarrow> nat list \<Rightarrow> nat list" where
  "add_count i cnts = cnts[i := cnts ! i + 1]"

text \<open>
  The body of the loop over the faces.  A \<^verbatim>\<open>ValueError\<close> of \<^verbatim>\<open>int\<close> is caught inside
  the loop and the face is left out; an \<^verbatim>\<open>IndexError\<close> of \<^verbatim>\<open>positions[i]\<close> is not, and
  ends the whole pass (the result \<open>None\<close>).
\<close>

definition accumulate_face :: "pyenv \<Rightarrow> vec3 list \<Rightarrow> elem \<Rightarrow> accum \<Rightarrow> accum option" where
  "accumulate_face py positions face ac =
     (case face_indices py face of
        None \<Rightarrow> Some ac
      | Some (v1_idx, v2_idx, v3_idx) \<Rightarrow>
          let vertex_count = length positions in
          if v1_idx < int vertex_count \<and> v2_idx < int vertex_count \<and> v3_idx < int vertex_count
          then
            do { i1 \<leftarrow> py_index vertex_count v1_idx;
                 i2 \<leftarrow> py_index vertex_count v2_idx;
                 i3 \<leftarrow> py_index vertex_count v3_idx;
                 let face_normal =
                       calculate_face_normal (positions ! i1) (positions ! i2) (positions ! i3)
                 in Some \<lparr>vertex_normals =
                            add_normal i3 face_normal
                              (add_normal i2 face_normal
                                (add_normal i1 face_normal (vertex_normals ac))),
                          vertex_face_count =
                            add_count i3 (add_count i2 (add_count i1 (vertex_face_count ac))),
                          face_count = face_count ac + 1\<rparr> }
          else Some ac)"

definition accumulate :: "pyenv \<Rightarrow> vec3 list \<Rightarrow> elem list \<Rightarrow> accum option" where
  "accumulate py positions face_elems =
     fold_opt (accumulate_face py positions) face_elems (accum_init (length positions))"

section \<open>recalculate_normals: writing the normals back\<close>

text \<open>\<^verbatim>\<open>elem.set(k, v)\<close> on the ordered attribute dictionary.\<close>

fun attr_set :: "string \<Rightarrow> string \<Rightarrow> (string \<times> string) list \<Rightarrow> (string \<times> string) list" where
  "attr_set k v [] = [(k, v)]"
| "attr_set k v ((k', v') # al) = (if k' = k then (k, v) # al else (k', v') # attr_set k v al)"

definition set_xyz :: "string \<times> string \<times> string \<Rightarrow> elem \<Rightarrow> elem" where
  "set_xyz s e =
     (case s of (sx, sy, sz) \<Rightarrow>
        Elem (tag e) (attr_set ''z'' sz (attr_set ''y'' sy (attr_set ''x'' sx (attrib e))))
             (etext e) (etail e) (kids e))"

text \<open>\<^verbatim>\<open>ET.SubElement(vertex, 'normal')\<close> followed by the three \<^verbatim>\<open>set\<close> calls.\<close>

definition new_normal :: "string \<times> string \<times> string \<Rightarrow> elem" where
  "new_normal s = set_xyz s (Elem ''normal'' [] None None [])"

definition find_index :: "elem \<Rightarrow> string \<Rightarrow> nat option" where
  "find_index e t = List.find (\<lambda>i. tag (kids e ! i) = t) [0..<length (kids e)]"

definition put_normal :: "string \<times> string \<times> string \<Rightarrow> bool \<Rightarrow> elem \<Rightarrow> elem" where
  "put_normal s create vertex =
     (case find_index vertex ''normal'' of
        Some j \<Rightarrow> Elem (tag vertex) (attrib vertex) (etext vertex) (etail vertex)
                    ((kids vertex)[j := set_xyz s (kids vertex ! j)])
      | None \<Rightarrow>
          if create
          then Elem (tag vertex) (attrib vertex) (etext vertex) (etail vertex)
                 (kids vertex @ [new_normal s])
          else vertex)"

text \<open>
  \<^verbatim>\<open>vertex_normals[i] * (1.0 / vertex_face_count[i])\<close>, normalized: the count becomes a
  float, its inverse is a float division.
\<close>

definition final_normal :: "vec3 \<Rightarrow> nat \<Rightarrow> vec3" where
  "final_normal vn cnt = normalize (v_mul vn (fdiv 1 (rd (real cnt))))"

definition xyz_strings :: "pyenv \<Rightarrow> vec3 \<Rightarrow> string \<times> string \<times> string" where
  "xyz_strings py v = (case v of (x, y, z) \<Rightarrow> (fmt6 py x, fmt6 py y, fmt6 py z))"

text \<open>One round of the loop over the vertex records: the new record, and 1 if it counts as updated.\<close>

definition write_vertex :: "pyenv \<Rightarrow> vec3 \<Rightarrow> nat \<Rightarrow> elem \<Rightarrow> elem \<times> nat" where
  "write_vertex py vn cnt vertex =
     (if cnt > 0
      then (put_normal (xyz_strings py (final_normal vn cnt)) True vertex, 1)
      else (put_normal (''0.000000'', ''1.000000'', ''0.000000'') False vertex, 0))"

text \<open>
  The children of the vertex buffer, the \<open>i\<close>-th child with tag \<^verbatim>\<open>vertex\<close> rewritten from
  entry \<open>i\<close> of the accumulators.
\<close>

fun write_kids :: "pyenv \<Rightarrow> vec3 list \<Rightarrow> nat list \<Rightarrow> nat \<Rightarrow> elem list \<Rightarrow> elem list \<times> nat" where
  "write_kids py vns cnts i [] = ([], 0)"
| "write_kids py vns cnts i (k # ks) =
     (if tag k = ''vertex''
      then (case write_vertex py (vns ! i) (cnts ! i) k of (k', u) \<Rightarrow>
              case write_kids py vns cnts (Suc i) ks of (ks', us) \<Rightarrow> (k' # ks', u + us))
      else (case write_kids py vns cnts i ks of (ks', us) \<Rightarrow> (k # ks', us)))"

definition write_normals :: "pyenv \<Rightarrow> accum \<Rightarrow> elem \<Rightarrow> elem \<times> nat" where
  "write_normals py ac vb =
     (case write_kids py (vertex_normals ac) (vertex_face_count ac) 0 (kids vb) of
        (ks', updated) \<Rightarrow> (Elem (tag vb) (attrib vb) (etext vb) (etail vb) ks', updated))"

section \<open>recalculate_normals: the pass\<close>

definition read_position :: "pyenv \<Rightarrow> elem \<Rightarrow> vec3 option" where
  "read_position py vertex =
     (case elem_find vertex ''position'' of
        None \<Rightarrow> Some (0, 0, 0)
      | Some pos_elem \<Rightarrow> read_xyz py pos_elem)"

definition read_positions :: "pyenv \<Rightarrow> elem \<Rightarrow> vec3 list option" where
  "read_positions py vertex_buffer = map_opt (read_position py) (elem_findall vertex_buffer ''vertex'')"

text \<open>
  What one round of the loop over the submeshes does with the vertex buffer it has found:
  \<open>None\<close> when an exception ends the pass, \<open>Some None\<close> when the submesh is skipped
  (\<^verbatim>\<open>continue\<close>), else the rewritten vertex buffer and the number of updated normals.
  \<open>faces\<close> is the \<^verbatim>\<open>faces\<close> element of the submesh, if it has one.
\<close>

definition recompute_vb :: "pyenv \<Rightarrow> elem \<Rightarrow> elem option \<Rightarrow> (elem \<times> nat) option option" where
  "recompute_vb py vertex_buffer faces_elem =
     (if elem_get vertex_buffer ''normals'' \<noteq> Some ''true'' then Some None
      else
        (case read_positions py vertex_buffer of
           None \<Rightarrow> None
         | Some positions \<Rightarrow>
             if length positions = 0 then Some None
             else
               (case faces_elem of
                  None \<Rightarrow> Some None
                | Some fe \<Rightarrow>
                    (case accumulate py positions (elem_findall fe ''face'') of
                       None \<Rightarrow> None
                     | Some ac \<Rightarrow> Some (Some (write_normals py ac vertex_buffer))))))"

text \<open>The geometry a submesh resolves to, as a path from the root.\<close>

definition geometry_path :: "elem \<Rightarrow> nat list \<Rightarrow> elem \<Rightarrow> nat list option" where
  "geometry_path xml_root sp submesh_elem =
     (if is_true (elem_get_default submesh_elem ''usesharedvertices'' ''false'')
      then (case find_desc xml_root ''sharedgeometry'' of
              Some p \<Rightarrow> Some p
            | None \<Rightarrow> find_mesh_sharedvertexdata xml_root)
      else map_option ((@) sp) (find_desc submesh_elem ''geometry''))"

text \<open>The path of the vertex buffer the pass works on for the submesh at \<open>sp\<close>.\<close>

definition vertex_buffer_path :: "elem \<Rightarrow> nat list \<Rightarrow> nat list option" where
  "vertex_buffer_path xml_root sp =
     do { submesh_elem \<leftarrow> get_at sp xml_root;
          gp \<leftarrow> geometry_path xml_root sp submesh_elem;
          geometry \<leftarrow> get_at gp xml_root;
          vp \<leftarrow> find_desc geometry ''vertexbuffer'';
          Some (gp @ vp) }"

definition submesh_faces_elem :: "elem \<Rightarrow> nat list \<Rightarrow> elem option" where
  "submesh_faces_elem xml_root sp =
     do { submesh_elem \<leftarrow> get_at sp xml_root;
          fp \<leftarrow> find_desc submesh_elem ''faces'';
          get_at fp submesh_elem }"

text \<open>One round of the loop over the submeshes: the tree afterwards and the number of updated normals.\<close>

definition process_submesh :: "pyenv \<Rightarrow> nat list \<Rightarrow> elem \<Rightarrow> (elem \<times> nat) option" where
  "process_submesh py sp xml_root =
     (case vertex_buffer_path xml_root sp of
        None \<Rightarrow> Some (xml_root, 0)
      | Some vbp \<Rightarrow>
          (case get_at vbp xml_root of
             None \<Rightarrow> Some (xml_root, 0)
           | Some vertex_buffer \<Rightarrow>
               (case recompute_vb py vertex_buffer (submesh_faces_elem xml_root sp) of
                  None \<Rightarrow> None
                | Some None \<Rightarrow> Some (xml_root, 0)
                | Some (Some (vb', updated)) \<Rightarrow> Some (upd_at (\<lambda>_. vb') vbp xml_root, updated))))"

fun process_submeshes :: "pyenv \<Rightarrow> nat list list \<Rightarrow> elem \<times> nat \<Rightarrow> (elem \<times> nat) option" where
  "process_submeshes py [] st = Some st"
| "process_submeshes py (sp # sps) st =
     (case process_submesh py sp (fst st) of
        None \<Rightarrow> None
      | Some (xml_root', updated) \<Rightarrow> process_submeshes py sps (xml_root', snd st + updated))"

text \<open>
  \<^verbatim>\<open>recalculate_normals\<close> on the parsed tree: \<open>None\<close> when it returns \<^verbatim>\<open>False\<close> and writes
  nothing, else the tree it writes and \<^verbatim>\<open>total_vertices_processed\<close>.  The messages it prints
  are not modelled.
\<close>

definition recalculate_normals :: "pyenv \<Rightarrow> elem \<Rightarrow> (elem \<times> nat) option" where
  "recalculate_normals py xml_root =
     process_submeshes py (findall_desc xml_root ''submesh'') (xml_root, 0)"

section \<open>Notions used to state the properties\<close>

text \<open>
  The value a vertex record holds for an attribute a fragment declares (\<open>None\<close> when
  the fragment does not declare the attribute or the record has no such child), and the
  list updates these values cause; they are used to describe the merge loop.
\<close>

definition upd_opt :: "'a option list \<Rightarrow> nat \<Rightarrow> 'a option \<Rightarrow> 'a option list" where
  "upd_opt xs i v = (case v of None \<Rightarrow> xs | Some p \<Rightarrow> xs[i := Some p])"

definition vertex_pos :: "pyenv \<Rightarrow> bool \<Rightarrow> elem \<Rightarrow> vec3 option" where
  "vertex_pos py hp v = (if hp then Option.bind (elem_find v ''position'') (read_xyz py) else None)"

definition vertex_normal :: "pyenv \<Rightarrow> bool \<Rightarrow> elem \<Rightarrow> vec3 option" where
  "vertex_normal py hn v = (if hn then Option.bind (elem_find v ''normal'') (read_xyz py) else None)"

definition vertex_uv :: "pyenv \<Rightarrow> bool \<Rightarrow> elem \<Rightarrow> vec2 option" where
  "vertex_uv py ht v = (if ht then Option.bind (find_texcoord v) (read_uv py) else None)"

fun seq_upd :: "'a option list \<Rightarrow> nat \<Rightarrow> 'a option list \<Rightarrow> 'a option list" where
  "seq_upd xs j [] = xs"
| "seq_upd xs j (w # ws) = seq_upd (upd_opt xs j w) (Suc j) ws"

text \<open>
  What the fragment \<open>vb\<close> supplies for vertex \<open>i\<close>: the fragment declares the
  attribute, has a vertex record \<open>i\<close>, and that record has the child.
\<close>

definition supplied_pos :: "pyenv \<Rightarrow> elem \<Rightarrow> nat \<Rightarrow> vec3 option" where
  "supplied_pos py vb i =
     (let vs = elem_findall vb ''vertex''
      in if i < length vs
         then vertex_pos py (is_true (elem_get_default vb ''positions'' ''false'')) (vs ! i)
         else None)"

definition supplied_normal :: "pyenv \<Rightarrow> elem \<Rightarrow> nat \<Rightarrow> vec3 option" where
  "supplied_normal py vb i =
     (let vs = elem_findall vb ''vertex''
      in if i < length vs
         then vertex_normal py (is_true (elem_get_default vb ''normals'' ''false'')) (vs ! i)
         else None)"

definition supplied_uv :: "pyenv \<Rightarrow> elem \<Rightarrow> nat \<Rightarrow> vec2 option" where
  "supplied_uv py vb i =
     (let vs = elem_findall vb ''vertex''
      in if i < length vs
         then vertex_uv py (case tex_coords_of py vb of None \<Rightarrow> False | Some n \<Rightarrow> n > 0) (vs ! i)
         else None)"

definition ms_len :: "int \<Rightarrow> mstate \<Rightarrow> bool" where
  "ms_len vc ms \<longleftrightarrow>
     length (local_verts ms) = nat vc \<and> length (local_normals ms) = nat vc \<and>
     length (local_uvs ms) = nat vc"

text \<open>
  \<open>last_some\<close> is the last value of a list of optional values, \<open>keep_or\<close> overwrites an
  old value by a new one if there is one.
\<close>

fun last_some :: "'a option list \<Rightarrow> 'a option" where
  "last_some [] = None"
| "last_some (x # xs) = (case last_some xs of None \<Rightarrow> x | Some v \<Rightarrow> Some v)"

definition keep_or :: "'a option \<Rightarrow> 'a option \<Rightarrow> 'a option" where
  "keep_or new old = (case new of None \<Rightarrow> old | Some p \<Rightarrow> Some p)"

text \<open>
  An environment for the examples.  It decodes the decimal integers without sign or with
  a minus sign, as \<^verbatim>\<open>int\<close> and \<^verbatim>\<open>float\<close> do on these strings, and formats the numbers 0
  and 1 as \<^verbatim>\<open>{:.6f}\<close> does; the examples use no other strings and format no other
  numbers.  \<open>el\<close> builds an element without text and tail.
\<close>

definition digit_val :: "char \<Rightarrow> nat option" where
  "digit_val c = (if 48 \<le> (of_char c :: nat) \<and> (of_char c :: nat) \<le> 57
                  then Some (of_char c - 48) else None)"

fun dec_nat :: "nat \<Rightarrow> string \<Rightarrow> nat option" where
  "dec_nat acc [] = Some acc"
| "dec_nat acc (c # cs) = (case digit_val c of None \<Rightarrow> None | Some d \<Rightarrow> dec_nat (10 * acc + d) cs)"

definition dec_int :: "string \<Rightarrow> int option" where
  "dec_int s =
     (case s of
        [] \<Rightarrow> None
      | c # cs \<Rightarrow>
          if c = CHR ''-'' then (if cs = [] then None else map_option (\<lambda>n. - int n) (dec_nat 0 cs))
          else map_option int (dec_nat 0 s))"

definition ex_py :: pyenv where
  "ex_py = \<lparr>py_int = dec_int, py_float = (\<lambda>s. map_option real_of_int (dec_int s)),
            fmt6 = (\<lambda>r. if r = 0 then ''0.000000'' else if r = 1 then ''1.000000'' else ''?'')\<rparr>"

definition el :: "string \<Rightarrow> (string \<times> string) list \<Rightarrow> elem list \<Rightarrow> elem" where
  "el t a ks = Elem t a None None ks"

definition xyz :: "string \<Rightarrow> string \<Rightarrow> string \<Rightarrow> string \<Rightarrow> elem" where
  "xyz t x y z = el t [(''x'', x), (''y'', y), (''z'', z)] []"

definition ex_vb1 :: elem where
  "ex_vb1 = el ''vertexbuffer'' [(''positions'', ''true''), (''normals'', ''True'')]
     [el ''vertex'' [] [xyz ''position'' ''1'' ''0'' ''0'', xyz ''normal'' ''0'' ''0'' ''1''],
      el ''vertex'' [] [xyz ''position'' ''0'' ''1'' ''0'']]"

definition ex_vb2 :: elem where
  "ex_vb2 = el ''vertexbuffer'' [(''positions'', ''true''), (''texture_coords'', ''1'')]
     [el ''vertex'' [] [xyz ''position'' ''1'' ''1'' ''1'',
                        el ''texcoord'' [(''u'', ''0''), (''v'', ''0'')] []]]"

definition ex_geom :: elem where
  "ex_geom = el ''geometry'' [(''vertexcount'', ''3'')] [ex_vb1, ex_vb2]"

text \<open>
  The geometry blocks \<^verbatim>\<open>parse_mesh_xml\<close> merges, in the order it merges them: the shared
  block, then the local block of every submesh that does not use shared vertices.  What a
  block contributes is what \<^verbatim>\<open>_parse_geometry\<close> makes of it from the empty lists.
\<close>

definition append_block :: "conv \<Rightarrow> conv \<Rightarrow> conv" where
  "append_block st c =
     st\<lparr>vertices := vertices st @ vertices c, normals := normals st @ normals c,
        uvs := uvs st @ uvs c\<rparr>"

definition local_block :: "elem \<Rightarrow> elem list" where
  "local_block submesh_elem =
     (if \<not> uses_shared submesh_elem
      then (case elem_find submesh_elem ''geometry'' of None \<Rightarrow> [] | Some geom \<Rightarrow> [geom])
      else [])"

definition geometry_blocks :: "elem \<Rightarrow> elem list" where
  "geometry_blocks xml_root =
     (case elem_find xml_root ''sharedgeometry'' of None \<Rightarrow> [] | Some g \<Rightarrow> [g]) @
     (case elem_find xml_root ''submeshes'' of
        None \<Rightarrow> []
      | Some sms \<Rightarrow> concat (map local_block (elem_findall sms ''submesh'')))"

definition block_nverts :: "pyenv \<Rightarrow> elem \<Rightarrow> nat" where
  "block_nverts py g = (case parse_geometry py g conv_init of None \<Rightarrow> 0 | Some c \<Rightarrow> length (vertices c))"

definition block_nnormals :: "pyenv \<Rightarrow> elem \<Rightarrow> nat" where
  "block_nnormals py g = (case parse_geometry py g conv_init of None \<Rightarrow> 0 | Some c \<Rightarrow> length (normals c))"

text \<open>
  The face lines of the written file are its lines that start with \<^verbatim>\<open>f\<close> and a blank.
\<close>

definition is_face_line :: "string \<Rightarrow> bool" where
  "is_face_line l = startswith l ''f ''"

text \<open>
  The three indices of a face as the tree gives them, and the shift to output numbering.
\<close>

definition source_indices :: "pyenv \<Rightarrow> elem \<Rightarrow> (int \<times> int \<times> int) option" where
  "source_indices py face =
     do { a \<leftarrow> int_attr py face ''v1'';
          b \<leftarrow> int_attr py face ''v2'';
          c \<leftarrow> int_attr py face ''v3'';
          Some (a, b, c) }"

definition source_faces :: "pyenv \<Rightarrow> elem \<Rightarrow> (int \<times> int \<times> int) list option" where
  "source_faces py submesh_elem =
     (case elem_find submesh_elem ''faces'' of
        None \<Rightarrow> Some []
      | Some faces_elem \<Rightarrow> map_opt (source_indices py) (elem_findall faces_elem ''face''))"

definition shift :: "int \<Rightarrow> int \<times> int \<times> int \<Rightarrow> int \<times> int \<times> int" where
  "shift off f = (case f of (a, b, c) \<Rightarrow> (a + off + 1, b + off + 1, c + off + 1))"

text \<open>
  Example meshes: a shared block of one vertex without normals, a local block of two
  vertices with normals, a local block of one vertex; and a shared block that declares
  zero vertices.
\<close>

definition vtx :: "elem list \<Rightarrow> elem" where
  "vtx ks = el ''vertex'' [] ks"

definition face3 :: "string \<Rightarrow> string \<Rightarrow> string \<Rightarrow> elem" where
  "face3 a b c = el ''face'' [(''v1'', a), (''v2'', b), (''v3'', c)] []"

definition ex_g0 :: elem where
  "ex_g0 = el ''sharedgeometry'' [(''vertexcount'', ''1'')]
     [el ''vertexbuffer'' [(''positions'', ''true'')] [vtx [xyz ''position'' ''0'' ''0'' ''0'']]]"

definition ex_g1 :: elem where
  "ex_g1 = el ''geometry'' [(''vertexcount'', ''2'')]
     [el ''vertexbuffer'' [(''positions'', ''true''), (''normals'', ''true'')]
        [vtx [xyz ''position'' ''1'' ''0'' ''0'', xyz ''normal'' ''0'' ''0'' ''1''],
         vtx [xyz ''position'' ''0'' ''1'' ''0'', xyz ''normal'' ''0'' ''0'' ''1'']]]"

definition ex_g2 :: elem where
  "ex_g2 = el ''geometry'' []
     [el ''vertexbuffer'' [(''positions'', ''true'')] [vtx [xyz ''position'' ''1'' ''1'' ''1'']]]"

definition ex_s1 :: elem where
  "ex_s1 = el ''submesh'' [(''material'', ''m1'')] [ex_g1, el ''faces'' [] [face3 ''0'' ''1'' ''1'']]"

definition ex_s2 :: elem where
  "ex_s2 = el ''submesh'' [] [ex_g2, el ''faces'' [] [face3 ''0'' ''0'' ''0'']]"

definition ex_mesh :: elem where
  "ex_mesh = el ''mesh'' [] [ex_g0, el ''submeshes'' [] [ex_s1, ex_s2]]"

definition cex_g0 :: elem where
  "cex_g0 = el ''sharedgeometry'' [(''vertexcount'', ''0'')] []"

definition cex_mesh :: elem where
  "cex_mesh = el ''mesh'' [] [cex_g0, el ''submeshes'' [] [ex_s1]]"

text \<open>
  The single triangle: vertex 1 has no normal field yet, and the tree after the pass.
\<close>

definition tri_vb :: elem where
  "tri_vb = el ''vertexbuffer'' [(''positions'', ''true''), (''normals'', ''true'')]
     [vtx [xyz ''position'' ''0'' ''0'' ''0'', xyz ''normal'' ''0'' ''1'' ''0''],
      vtx [xyz ''position'' ''1'' ''0'' ''0''],
      vtx [xyz ''position'' ''0'' ''1'' ''0'', xyz ''normal'' ''1'' ''0'' ''0'']]"

definition tri_faces :: elem where
  "tri_faces = el ''faces'' [] [face3 ''0'' ''1'' ''2'']"

definition tri_mesh :: elem where
  "tri_mesh = el ''mesh'' []
     [el ''submeshes'' []
        [el ''submesh'' [(''usesharedvertices'', ''false'')]
           [tri_faces, el ''geometry'' [(''vertexcount'', ''3'')] [tri_vb]]]]"

definition unit_z :: "string \<times> string \<times> string" where
  "unit_z = (''0.000000'', ''0.000000'', ''1.000000'')"

definition tri_vb_out :: elem where
  "tri_vb_out = el ''vertexbuffer'' [(''positions'', ''true''), (''normals'', ''true'')]
     [vtx [xyz ''position'' ''0'' ''0'' ''0'', new_normal unit_z],
      vtx [xyz ''position'' ''1'' ''0'' ''0'', new_normal unit_z],
      vtx [xyz ''position'' ''0'' ''1'' ''0'', new_normal unit_z]]"

definition tri_submesh :: elem where
  "tri_submesh = el ''submesh'' [(''usesharedvertices'', ''false'')]
           [tri_faces, el ''geometry'' [(''vertexcount'', ''3'')] [tri_vb]]"

definition tri_mesh_out :: elem where
  "tri_mesh_out = el ''mesh'' []
     [el ''submeshes'' []
        [el ''submesh'' [(''usesharedvertices'', ''false'')]
           [tri_faces, el ''geometry'' [(''vertexcount'', ''3'')] [tri_vb_out]]]]"

text \<open>
  Two paths diverge when they differ at a position both have: neither element is the
  other or one of its descendants.
\<close>

fun diverge :: "nat list \<Rightarrow> nat list \<Rightarrow> bool" where
  "diverge (i # p) (j # q) = (if i = j then diverge p q else True)"
| "diverge p q = False"

text \<open>
  The frame of the pass.  \<open>frame pv e e'\<close> relates an element to what it may have become,
  where \<open>pv\<close> says that the parent is a \<^verbatim>\<open>vertex\<close>: tag, text and tail are the same; the
  attributes are the same, but for a \<^verbatim>\<open>normal\<close> child of a \<^verbatim>\<open>vertex\<close> only those other
  than x, y, z need to be; the old children are in place and related in turn; and at most
  one child is new, the last one, an element \<^verbatim>\<open>normal\<close> with attributes x, y, z only, no
  text, no tail and no children, under a \<^verbatim>\<open>vertex\<close> that had no \<^verbatim>\<open>normal\<close> child.
\<close>

definition other_attrs :: "(string \<times> string) list \<Rightarrow> (string \<times> string) list" where
  "other_attrs al = filter (\<lambda>kv. fst kv \<noteq> ''x'' \<and> fst kv \<noteq> ''y'' \<and> fst kv \<noteq> ''z'') al"

definition fresh_normal :: "elem \<Rightarrow> bool" where
  "fresh_normal e \<longleftrightarrow>
     tag e = ''normal'' \<and> other_attrs (attrib e) = [] \<and> etext e = None \<and> etail e = None \<and>
     kids e = []"

function frame :: "bool \<Rightarrow> elem \<Rightarrow> elem \<Rightarrow> bool" where
  "frame pv (Elem t a xt xl ks) (Elem t' a' xt' xl' ks') \<longleftrightarrow>
     t' = t \<and> xt' = xt \<and> xl' = xl \<and>
     (if pv \<and> t = ''normal'' then other_attrs a' = other_attrs a else a' = a) \<and>
     length ks \<le> length ks' \<and>
     (\<forall>i<length ks. frame (t = ''vertex'') (ks ! i) (ks' ! i)) \<and>
     (length ks < length ks' \<longrightarrow>
        t = ''vertex'' \<and> (\<forall>k \<in> set ks. tag k \<noteq> ''normal'') \<and>
        length ks' = Suc (length ks) \<and> fresh_normal (ks' ! length ks))"
  by pat_completeness auto

termination
  by (relation "measure (\<lambda>(pv, e, e'). size e)") (auto simp: size_nth_kid)

declare frame.simps [simp del]

text \<open>
  More example meshes, each with one submesh: faces with a negative index; a vertex
  buffer with two vertices no face touches, one of them without a normal field; and a
  geometry with two vertex buffers.
\<close>

definition std_mesh :: "elem \<Rightarrow> elem list \<Rightarrow> elem" where
  "std_mesh fe vbs = el ''mesh'' []
     [el ''submeshes'' []
        [el ''submesh'' [(''usesharedvertices'', ''false'')] [fe, el ''geometry'' [] vbs]]]"

definition neg_faces :: elem where
  "neg_faces = el ''faces'' [] [face3 ''-4'' ''0'' ''1'', face3 ''0'' ''1'' ''2'']"

definition neg_mesh :: elem where
  "neg_mesh = std_mesh neg_faces [tri_vb]"

definition gap_vb :: elem where
  "gap_vb = el ''vertexbuffer'' [(''positions'', ''true''), (''normals'', ''true'')]
     [vtx [xyz ''position'' ''0'' ''0'' ''0'', xyz ''normal'' ''0'' ''1'' ''0''],
      vtx [xyz ''position'' ''1'' ''0'' ''0'', xyz ''normal'' ''0'' ''1'' ''0''],
      vtx [xyz ''position'' ''0'' ''1'' ''0'', xyz ''normal'' ''0'' ''1'' ''0''],
      vtx [xyz ''position'' ''1'' ''1'' ''0''],
      vtx [xyz ''position'' ''1'' ''1'' ''1'', xyz ''normal'' ''1'' ''0'' ''0'']]"

definition gap_vb_out :: elem where
  "gap_vb_out = el ''vertexbuffer'' [(''positions'', ''true''), (''normals'', ''true'')]
     [vtx [xyz ''position'' ''0'' ''0'' ''0'', xyz ''normal'' ''0.000000'' ''0.000000'' ''1.000000''],
      vtx [xyz ''position'' ''1'' ''0'' ''0'', xyz ''normal'' ''0.000000'' ''0.000000'' ''1.000000''],
      vtx [xyz ''position'' ''0'' ''1'' ''0'', xyz ''normal'' ''0.000000'' ''0.000000'' ''1.000000''],
      vtx [xyz ''position'' ''1'' ''1'' ''0''],
      vtx [xyz ''position'' ''1'' ''1'' ''1'', xyz ''normal'' ''0.000000'' ''1.000000'' ''0.000000'']]"

definition gap_mesh :: elem where
  "gap_mesh = std_mesh tri_faces [gap_vb]"

definition gap_mesh_out :: elem where
  "gap_mesh_out = std_mesh tri_faces [gap_vb_out]"

definition two_vb_first :: elem where
  "two_vb_first = el ''vertexbuffer'' [(''positions'', ''true'')]
     [vtx [xyz ''position'' ''0'' ''0'' ''0''], vtx [xyz ''position'' ''1'' ''0'' ''0''],
      vtx [xyz ''position'' ''0'' ''1'' ''0'']]"

definition two_vb_second :: elem where
  "two_vb_second = el ''vertexbuffer'' [(''normals'', ''true'')]
     [vtx [xyz ''normal'' ''0'' ''1'' ''0''], vtx [xyz ''normal'' ''0'' ''1'' ''0''],
      vtx [xyz ''normal'' ''0'' ''1'' ''0'']]"

definition two_vb_mesh :: elem where
  "two_vb_mesh = std_mesh tri_faces [two_vb_first, two_vb_second]"

section \<open>Properties\<close>

lemma pow2_powr: "pow2 k = 2 powr (of_int k)"
  by (simp add: pow2_def powr_int)

lemma pow2_pos: "0 < pow2 k"
  by (simp add: pow2_def)

lemma quantum_eq:
  assumes "pow2 k \<le> \<bar>x\<bar>" and "\<bar>x\<bar> < pow2 (k + 1)"
  shows "quantum x = pow2 (max k (- 1022) - 52)"
proof -
  have "0 < \<bar>x\<bar>" using assms(1) pow2_pos [of k] by linarith
  moreover have "2 powr (of_int k) \<le> \<bar>x\<bar> \<and> \<bar>x\<bar> < 2 powr (of_int k + 1)"
    using assms by (simp add: pow2_powr)
  ultimately have "\<lfloor>log 2 \<bar>x\<bar>\<rfloor> = k"
    by (simp add: floor_log_eq_powr_iff)
  then show ?thesis by (simp add: quantum_def)
qed

lemma rd_eq:
  assumes "pow2 k \<le> \<bar>x\<bar>" and "\<bar>x\<bar> < pow2 (k + 1)"
  shows "rd x = of_int (round_even (x / pow2 (max k (- 1022) - 52))) * pow2 (max k (- 1022) - 52)"
proof -
  have "x \<noteq> 0" using assms(1) pow2_pos [of k] by auto
  then show ?thesis using quantum_eq [OF assms] by (simp add: rd_def)
qed

lemma rd_0: "rd 0 = 0"
  by (simp add: rd_def)

lemma rd_1: "rd 1 = 1"
  by (subst rd_eq [of 0]) (simp_all add: pow2_def round_even_def)

lemma rd_m1: "rd (- 1) = - 1"
  by (subst rd_eq [of 0]) (simp_all add: pow2_def round_even_def)

lemma rd_2: "rd 2 = 2"
  by (subst rd_eq [of 1]) (simp_all add: pow2_def round_even_def)

lemma rd_half: "rd (1 / 2) = 1 / 2"
  by (subst rd_eq [of "- 1"]) (simp_all add: pow2_def round_even_def)

lemma rd_tiny: "rd (1 / 2 ^ 60) = 1 / 2 ^ 60"
  by (subst rd_eq [of "- 60"]) (simp_all add: pow2_def round_even_def)

lemma rd_near_1: "rd (1 - 1 / 2 ^ 60) = 1"
  by (subst rd_eq [of "- 1"]) (simp_all add: pow2_def round_even_def)

lemma rd_micro: "rd (1 / 1000000) = 4722366482869645 / 2 ^ 72"
  by (subst rd_eq [of "- 20"]) (simp_all add: pow2_def round_even_def)

lemmas float_simps = fadd_def fsub_def fmul_def fdiv_def fsqrt_def rd_0 rd_1 rd_m1 rd_2 rd_half

lemma flip_v_small: "flip_v 0 = 1" "flip_v 1 = 0"
  by (simp_all add: flip_v_def float_simps)

lemma set_position_eff:
  "set_position py hp i v ms = Some ms' \<Longrightarrow>
   ms' = ms\<lparr>local_verts := upd_opt (local_verts ms) i (vertex_pos py hp v)\<rparr>"
  by (auto simp: set_position_def upd_opt_def vertex_pos_def split: if_splits option.splits bind_splits)

lemma set_normal_eff:
  "set_normal py hn i v ms = Some ms' \<Longrightarrow>
   ms' = ms\<lparr>local_normals := upd_opt (local_normals ms) i (vertex_normal py hn v),
            any_normals := any_normals ms \<or> vertex_normal py hn v \<noteq> None\<rparr>"
  by (auto simp: set_normal_def upd_opt_def vertex_normal_def split: if_splits option.splits bind_splits)

lemma set_uv_eff:
  "set_uv py ht i v ms = Some ms' \<Longrightarrow>
   ms' = ms\<lparr>local_uvs := upd_opt (local_uvs ms) i (vertex_uv py ht v),
            any_uvs := any_uvs ms \<or> vertex_uv py ht v \<noteq> None\<rparr>"
  by (auto simp: set_uv_def upd_opt_def vertex_uv_def split: if_splits option.splits bind_splits)

lemma merge_vertex_eff:
  "merge_vertex py (hp, hn, ht) i v ms = Some ms' \<Longrightarrow>
   ms' = \<lparr>local_verts = upd_opt (local_verts ms) i (vertex_pos py hp v),
          local_normals = upd_opt (local_normals ms) i (vertex_normal py hn v),
          local_uvs = upd_opt (local_uvs ms) i (vertex_uv py ht v),
          any_normals = (any_normals ms \<or> vertex_normal py hn v \<noteq> None),
          any_uvs = (any_uvs ms \<or> vertex_uv py ht v \<noteq> None)\<rparr>"
  unfolding merge_vertex_def
  by (auto simp: bind_eq_Some_conv dest!: set_position_eff set_normal_eff set_uv_eff)

lemma length_upd_opt [simp]: "length (upd_opt xs i v) = length xs"
  by (simp add: upd_opt_def split: option.splits)

lemma length_seq_upd [simp]: "length (seq_upd xs j ws) = length xs"
  by (induction ws arbitrary: xs j) simp_all

lemma nth_upd_opt:
  "i < length xs \<Longrightarrow> upd_opt xs j v ! i = (if i = j \<and> v \<noteq> None then v else xs ! i)"
  by (auto simp: upd_opt_def split: option.splits)

lemma nth_seq_upd:
  "i < length xs \<Longrightarrow>
   seq_upd xs j ws ! i =
     (if j \<le> i \<and> i < j + length ws \<and> ws ! (i - j) \<noteq> None then ws ! (i - j) else xs ! i)"
proof (induction ws arbitrary: xs j)
  case Nil
  then show ?case by auto
next
  case (Cons w ws)
  have len: "i < length (upd_opt xs j w)" using Cons.prems by simp
  show ?case
  proof (cases "i = j")
    case True
    then show ?thesis using Cons.IH [OF len, of "Suc j"] Cons.prems
      by (simp add: nth_upd_opt)
  next
    case False
    then show ?thesis using Cons.IH [OF len, of "Suc j"] Cons.prems
      by (auto simp: nth_upd_opt nth_Cons' Suc_diff_le)
  qed
qed

lemma merge_vertices_eff:
  "merge_vertices py vc (hp, hn, ht) j vs ms = Some ms' \<Longrightarrow>
   ms' = \<lparr>local_verts = seq_upd (local_verts ms) j (map (vertex_pos py hp) (take (nat vc - j) vs)),
          local_normals = seq_upd (local_normals ms) j (map (vertex_normal py hn) (take (nat vc - j) vs)),
          local_uvs = seq_upd (local_uvs ms) j (map (vertex_uv py ht) (take (nat vc - j) vs)),
          any_normals = (any_normals ms \<or> (\<exists>v \<in> set (take (nat vc - j) vs). vertex_normal py hn v \<noteq> None)),
          any_uvs = (any_uvs ms \<or> (\<exists>v \<in> set (take (nat vc - j) vs). vertex_uv py ht v \<noteq> None))\<rparr>"
proof (induction vs arbitrary: j ms)
  case Nil
  then show ?case by simp
next
  case (Cons v vs)
  show ?case
  proof (cases "int j \<ge> vc")
    case True
    then have "nat vc - j = 0" by simp
    with True Cons.prems show ?thesis by simp
  next
    case False
    then have lt: "j < nat vc" by linarith
    then have m: "nat vc - j = Suc (nat vc - Suc j)" by simp
    from False Cons.prems obtain ms1 where
      s1: "merge_vertex py (hp, hn, ht) j v ms = Some ms1" and
      s2: "merge_vertices py vc (hp, hn, ht) (Suc j) vs ms1 = Some ms'"
      by (auto simp: bind_eq_Some_conv)
    show ?thesis
      using Cons.IH [OF s2] merge_vertex_eff [OF s1] by (simp add: m)
  qed
qed

lemma set_take_nth: "(\<exists>v \<in> set (take n vs). P v) \<longleftrightarrow> (\<exists>i. i < n \<and> i < length vs \<and> P (vs ! i))"
proof
  assume "\<exists>v \<in> set (take n vs). P v"
  then obtain k where "k < length (take n vs)" "P (take n vs ! k)"
    by (auto simp: in_set_conv_nth)
  then have "k < n \<and> k < length vs \<and> P (vs ! k)" by simp
  then show "\<exists>i. i < n \<and> i < length vs \<and> P (vs ! i)" by blast
next
  assume "\<exists>i. i < n \<and> i < length vs \<and> P (vs ! i)"
  then obtain i where i: "i < n" "i < length vs" "P (vs ! i)" by blast
  then have "take n vs ! i \<in> set (take n vs)" by (intro nth_mem) simp
  with i show "\<exists>v \<in> set (take n vs). P v" by auto
qed

lemma merge_vb_eff:
  assumes "merge_vb py vc vb ms = Some ms'" and "ms_len vc ms"
  shows "ms_len vc ms'"
    and "i < nat vc \<Longrightarrow> local_verts ms' ! i = keep_or (supplied_pos py vb i) (local_verts ms ! i)"
    and "i < nat vc \<Longrightarrow> local_normals ms' ! i = keep_or (supplied_normal py vb i) (local_normals ms ! i)"
    and "i < nat vc \<Longrightarrow> local_uvs ms' ! i = keep_or (supplied_uv py vb i) (local_uvs ms ! i)"
    and "any_normals ms' \<longleftrightarrow> any_normals ms \<or> (\<exists>i<nat vc. supplied_normal py vb i \<noteq> None)"
    and "any_uvs ms' \<longleftrightarrow> any_uvs ms \<or> (\<exists>i<nat vc. supplied_uv py vb i \<noteq> None)"
proof -
  from assms(1) obtain tc where tc: "tex_coords_of py vb = Some tc"
    and mv: "merge_vertices py vc
               (is_true (elem_get_default vb ''positions'' ''false''),
                is_true (elem_get_default vb ''normals'' ''false''), tc > 0) 0
               (elem_findall vb ''vertex'') ms = Some ms'"
    by (auto simp: merge_vb_def vb_flags_def bind_eq_Some_conv)
  note eff = merge_vertices_eff [OF mv]
  from eff assms(2) show "ms_len vc ms'"
    by (simp add: ms_len_def)
  show "local_verts ms' ! i = keep_or (supplied_pos py vb i) (local_verts ms ! i)" if "i < nat vc"
    using that assms(2) by (subst eff) (auto simp: ms_len_def nth_seq_upd supplied_pos_def keep_or_def Let_def split: option.splits)
  show "local_normals ms' ! i = keep_or (supplied_normal py vb i) (local_normals ms ! i)" if "i < nat vc"
    using that assms(2) by (subst eff) (auto simp: ms_len_def nth_seq_upd supplied_normal_def keep_or_def Let_def split: option.splits)
  show "local_uvs ms' ! i = keep_or (supplied_uv py vb i) (local_uvs ms ! i)" if "i < nat vc"
    using that assms(2) tc by (subst eff) (auto simp: ms_len_def nth_seq_upd supplied_uv_def keep_or_def Let_def split: option.splits)
  show "any_normals ms' \<longleftrightarrow> any_normals ms \<or> (\<exists>i<nat vc. supplied_normal py vb i \<noteq> None)"
    by (subst eff) (auto simp: set_take_nth supplied_normal_def Let_def)
  show "any_uvs ms' \<longleftrightarrow> any_uvs ms \<or> (\<exists>i<nat vc. supplied_uv py vb i \<noteq> None)"
    using tc by (subst eff) (auto simp: set_take_nth supplied_uv_def Let_def)
qed

lemma merge_vbs_eff:
  assumes "merge_vbs py vc vbs ms = Some ms'" and "ms_len vc ms"
  shows "ms_len vc ms'"
    and "i < nat vc \<Longrightarrow>
         local_verts ms' ! i = keep_or (last_some (map (\<lambda>vb. supplied_pos py vb i) vbs)) (local_verts ms ! i)"
    and "i < nat vc \<Longrightarrow>
         local_normals ms' ! i = keep_or (last_some (map (\<lambda>vb. supplied_normal py vb i) vbs)) (local_normals ms ! i)"
    and "i < nat vc \<Longrightarrow>
         local_uvs ms' ! i = keep_or (last_some (map (\<lambda>vb. supplied_uv py vb i) vbs)) (local_uvs ms ! i)"
    and "any_normals ms' \<longleftrightarrow> any_normals ms \<or> (\<exists>vb \<in> set vbs. \<exists>i<nat vc. supplied_normal py vb i \<noteq> None)"
    and "any_uvs ms' \<longleftrightarrow> any_uvs ms \<or> (\<exists>vb \<in> set vbs. \<exists>i<nat vc. supplied_uv py vb i \<noteq> None)"
  using assms
proof (induction vbs arbitrary: ms)
  case Nil
  { case 1 then show ?case by (simp add: merge_vbs_def) }
  { case 2 then show ?case by (simp add: merge_vbs_def keep_or_def) }
  { case 3 then show ?case by (simp add: merge_vbs_def keep_or_def) }
  { case 4 then show ?case by (simp add: merge_vbs_def keep_or_def) }
  { case 5 then show ?case by (simp add: merge_vbs_def) }
  { case 6 then show ?case by (simp add: merge_vbs_def) }
next
  case (Cons vb vbs)
  { case 1
    then obtain ms1 where a: "merge_vb py vc vb ms = Some ms1" and b: "merge_vbs py vc vbs ms1 = Some ms'"
      by (auto simp: merge_vbs_def bind_eq_Some_conv)
    from Cons.IH(1) [OF b merge_vb_eff(1) [OF a 1(2)]] show ?case . }
  { case 2
    then obtain ms1 where a: "merge_vb py vc vb ms = Some ms1" and b: "merge_vbs py vc vbs ms1 = Some ms'"
      by (auto simp: merge_vbs_def bind_eq_Some_conv)
    from Cons.IH(2) [OF 2(1) b merge_vb_eff(1) [OF a 2(3)]] merge_vb_eff(2) [OF a 2(3) 2(1)]
    show ?case by (simp add: keep_or_def split: option.splits) }
  { case 3
    then obtain ms1 where a: "merge_vb py vc vb ms = Some ms1" and b: "merge_vbs py vc vbs ms1 = Some ms'"
      by (auto simp: merge_vbs_def bind_eq_Some_conv)
    from Cons.IH(3) [OF 3(1) b merge_vb_eff(1) [OF a 3(3)]] merge_vb_eff(3) [OF a 3(3) 3(1)]
    show ?case by (simp add: keep_or_def split: option.splits) }
  { case 4
    then obtain ms1 where a: "merge_vb py vc vb ms = Some ms1" and b: "merge_vbs py vc vbs ms1 = Some ms'"
      by (auto simp: merge_vbs_def bind_eq_Some_conv)
    from Cons.IH(4) [OF 4(1) b merge_vb_eff(1) [OF a 4(3)]] merge_vb_eff(4) [OF a 4(3) 4(1)]
    show ?case by (simp add: keep_or_def split: option.splits) }
  { case 5
    then obtain ms1 where a: "merge_vb py vc vb ms = Some ms1" and b: "merge_vbs py vc vbs ms1 = Some ms'"
      by (auto simp: merge_vbs_def bind_eq_Some_conv)
    from Cons.IH(5) [OF b merge_vb_eff(1) [OF a 5(2)]] merge_vb_eff(5) [OF a 5(2)]
    show ?case by auto }
  { case 6
    then obtain ms1 where a: "merge_vb py vc vb ms = Some ms1" and b: "merge_vbs py vc vbs ms1 = Some ms'"
      by (auto simp: merge_vbs_def bind_eq_Some_conv)
    from Cons.IH(6) [OF b merge_vb_eff(1) [OF a 6(2)]] merge_vb_eff(6) [OF a 6(2)]
    show ?case by auto }
qed

lemma last_some_None: "last_some xs = None \<longleftrightarrow> (\<forall>x \<in> set xs. x = None)"
  by (induction xs) (auto split: option.splits)

lemma last_some_Some:
  "k < length xs \<Longrightarrow> xs ! k = Some p \<Longrightarrow> (\<forall>k'. k < k' \<and> k' < length xs \<longrightarrow> xs ! k' = None) \<Longrightarrow>
   last_some xs = Some p"
proof (induction xs arbitrary: k)
  case Nil
  then show ?case by simp
next
  case (Cons x xs)
  show ?case
  proof (cases k)
    case 0
    have "\<forall>y \<in> set xs. y = None"
    proof
      fix y assume "y \<in> set xs"
      then obtain j where j: "j < length xs" "xs ! j = y" by (auto simp: in_set_conv_nth)
      with Cons.prems(3) [rule_format, of "Suc j"] 0 show "y = None" by simp
    qed
    then have "last_some xs = None" by (simp add: last_some_None)
    with 0 Cons.prems(2) show ?thesis by simp
  next
    case (Suc m)
    have "last_some xs = Some p"
    proof (rule Cons.IH [of m])
      show "m < length xs" using Cons.prems(1) Suc by simp
      show "xs ! m = Some p" using Cons.prems(2) Suc by simp
      show "\<forall>k'. m < k' \<and> k' < length xs \<longrightarrow> xs ! k' = None"
      proof (intro allI impI)
        fix k' assume "m < k' \<and> k' < length xs"
        with Cons.prems(3) [rule_format, of "Suc k'"] Suc show "xs ! k' = None" by simp
      qed
    qed
    then show ?thesis by simp
  qed
qed

lemma ms_len_init: "ms_len vc (mstate_init vc)"
  by (simp add: ms_len_def mstate_init_def)

lemma dec_int_simps:
  "dec_int ''0'' = Some 0" "dec_int ''1'' = Some 1" "dec_int ''2'' = Some 2" "dec_int ''3'' = Some 3"
  "dec_int ''-1'' = Some (-1)"
  by (simp_all add: dec_int_def digit_val_def)

lemma is_true_simps: "is_true ''true''" "is_true ''True''" "\<not> is_true ''false''"
  by (simp_all add: is_true_def lower_def lower_char_def char_of_def bit_Suc_0_iff)

lemma ex_merge:
  "merge_raw ex_py 3 ex_geom =
     Some \<lparr>local_verts = [Some (1, 1, 1), Some (0, 1, 0), None],
           local_normals = [Some (0, 0, 1), None, None],
           local_uvs = [Some (0, 1), None, None], any_normals = True, any_uvs = True\<rparr>"
  by (simp add: merge_raw_def merge_vbs_def merge_vb_def vb_flags_def tex_coords_of_def
        elem_get_default_def elem_get_def elem_findall_def elem_find_def ex_geom_def ex_vb1_def
        ex_vb2_def el_def xyz_def is_true_simps mstate_init_def merge_vertex_def set_position_def
        set_normal_def set_uv_def find_texcoord_def read_xyz_def read_uv_def float_attr_def
        ex_py_def dec_int_simps flip_v_small numeral_3_eq_3)

lemma ex_swap_neg:
  "(\<exists>x \<in> S. \<exists>i<n. Q x i) \<longleftrightarrow> \<not> (\<forall>i<(n::nat). \<forall>x \<in> S. \<not> Q x i)"
  by blast

text \<open>
  Claim C3.  After the merge of a block with vertex count \<open>vc\<close>, the position sequence
  has \<open>vc\<close> entries and an entry no fragment supplied is (0,0,0); the normal sequence is
  empty when no fragment supplied a normal for any vertex, and otherwise is as long as
  the position sequence with (0,1,0) wherever no fragment supplied one; the same holds
  for the uv sequence with (0,0).
\<close>

theorem merge_all_or_nothing:
  assumes "merge_raw py vc g = Some ms" and "vbs = elem_findall g ''vertexbuffer''"
  shows "length (fill_verts ms) = nat vc \<and>
         (\<forall>i<nat vc. (\<forall>vb \<in> set vbs. supplied_pos py vb i = None) \<longrightarrow> fill_verts ms ! i = (0, 0, 0)) \<and>
         (if \<forall>i<nat vc. \<forall>vb \<in> set vbs. supplied_normal py vb i = None
          then fill_normals ms = []
          else length (fill_normals ms) = length (fill_verts ms) \<and>
               (\<forall>i<nat vc. (\<forall>vb \<in> set vbs. supplied_normal py vb i = None) \<longrightarrow>
                   fill_normals ms ! i = (0, 1, 0))) \<and>
         (if \<forall>i<nat vc. \<forall>vb \<in> set vbs. supplied_uv py vb i = None
          then fill_uvs ms = []
          else length (fill_uvs ms) = length (fill_verts ms) \<and>
               (\<forall>i<nat vc. (\<forall>vb \<in> set vbs. supplied_uv py vb i = None) \<longrightarrow>
                   fill_uvs ms ! i = (0, 0)))"
proof -
  have m: "merge_vbs py vc vbs (mstate_init vc) = Some ms"
    using assms by (simp add: merge_raw_def)
  note eff = merge_vbs_eff [OF m ms_len_init]
  have len: "length (local_verts ms) = nat vc" "length (local_normals ms) = nat vc"
            "length (local_uvs ms) = nat vc"
    using eff(1) by (simp_all add: ms_len_def)
  have init: "\<And>i. i < nat vc \<Longrightarrow> local_verts (mstate_init vc) ! i = None"
             "\<And>i. i < nat vc \<Longrightarrow> local_normals (mstate_init vc) ! i = None"
             "\<And>i. i < nat vc \<Longrightarrow> local_uvs (mstate_init vc) ! i = None"
    by (simp_all add: mstate_init_def)
  have an: "any_normals ms \<longleftrightarrow> \<not> (\<forall>i<nat vc. \<forall>vb \<in> set vbs. supplied_normal py vb i = None)"
  proof -
    have "\<not> any_normals (mstate_init vc)" by (simp add: mstate_init_def)
    with eff(5) have "any_normals ms \<longleftrightarrow> (\<exists>vb \<in> set vbs. \<exists>i<nat vc. supplied_normal py vb i \<noteq> None)"
      by simp
    also have "\<dots> \<longleftrightarrow> \<not> (\<forall>i<nat vc. \<forall>vb \<in> set vbs. supplied_normal py vb i = None)"
      using ex_swap_neg [of "set vbs" "nat vc" "\<lambda>vb i. supplied_normal py vb i \<noteq> None"]
      by (simp only: not_not)
    finally show ?thesis .
  qed
  have au: "any_uvs ms \<longleftrightarrow> \<not> (\<forall>i<nat vc. \<forall>vb \<in> set vbs. supplied_uv py vb i = None)"
  proof -
    have "\<not> any_uvs (mstate_init vc)" by (simp add: mstate_init_def)
    with eff(6) have "any_uvs ms \<longleftrightarrow> (\<exists>vb \<in> set vbs. \<exists>i<nat vc. supplied_uv py vb i \<noteq> None)"
      by simp
    also have "\<dots> \<longleftrightarrow> \<not> (\<forall>i<nat vc. \<forall>vb \<in> set vbs. supplied_uv py vb i = None)"
      using ex_swap_neg [of "set vbs" "nat vc" "\<lambda>vb i. supplied_uv py vb i \<noteq> None"]
      by (simp only: not_not)
    finally show ?thesis .
  qed
  have p: "fill_verts ms ! i = (0, 0, 0)"
    if "i < nat vc" "\<forall>vb \<in> set vbs. supplied_pos py vb i = None" for i
  proof -
    have "last_some (map (\<lambda>vb. supplied_pos py vb i) vbs) = None"
      using that(2) by (simp add: last_some_None)
    then have "local_verts ms ! i = None"
      using eff(2) [OF that(1)] init(1) [OF that(1)] by (simp add: keep_or_def)
    then show ?thesis using that(1) len by (simp add: fill_verts_def)
  qed
  have n: "fill_normals ms ! i = (0, 1, 0)"
    if "i < nat vc" "\<forall>vb \<in> set vbs. supplied_normal py vb i = None" "any_normals ms" for i
  proof -
    have "last_some (map (\<lambda>vb. supplied_normal py vb i) vbs) = None"
      using that(2) by (simp add: last_some_None)
    then have "local_normals ms ! i = None"
      using eff(3) [OF that(1)] init(2) [OF that(1)] by (simp add: keep_or_def)
    then show ?thesis using that(1,3) len by (simp add: fill_normals_def)
  qed
  have u: "fill_uvs ms ! i = (0, 0)"
    if "i < nat vc" "\<forall>vb \<in> set vbs. supplied_uv py vb i = None" "any_uvs ms" for i
  proof -
    have "last_some (map (\<lambda>vb. supplied_uv py vb i) vbs) = None"
      using that(2) by (simp add: last_some_None)
    then have "local_uvs ms ! i = None"
      using eff(4) [OF that(1)] init(3) [OF that(1)] by (simp add: keep_or_def)
    then show ?thesis using that(1,3) len by (simp add: fill_uvs_def)
  qed
  have c1: "length (fill_verts ms) = nat vc" using len by (simp add: fill_verts_def)
  have c3: "if \<forall>i<nat vc. \<forall>vb \<in> set vbs. supplied_normal py vb i = None
          then fill_normals ms = []
          else length (fill_normals ms) = length (fill_verts ms) \<and>
               (\<forall>i<nat vc. (\<forall>vb \<in> set vbs. supplied_normal py vb i = None) \<longrightarrow>
                   fill_normals ms ! i = (0, 1, 0))"
  proof (cases "any_normals ms")
    case True
    have l: "length (fill_normals ms) = length (fill_verts ms)"
      using True len by (simp add: fill_normals_def fill_verts_def)
    have ne: "\<not> (\<forall>i<nat vc. \<forall>vb \<in> set vbs. supplied_normal py vb i = None)"
      by (rule iffD1 [OF an True])
    have d: "\<forall>i<nat vc. (\<forall>vb \<in> set vbs. supplied_normal py vb i = None) \<longrightarrow>
                fill_normals ms ! i = (0, 1, 0)"
      by (intro allI impI) (rule n, assumption+, rule True)
    show ?thesis
      by (subst if_not_P [OF ne]) (rule conjI [OF l d])
  next
    case False
    have e: "\<forall>i<nat vc. \<forall>vb \<in> set vbs. supplied_normal py vb i = None"
    proof (rule ccontr)
      assume "\<not> (\<forall>i<nat vc. \<forall>vb \<in> set vbs. supplied_normal py vb i = None)"
      then have "any_normals ms" by (rule iffD2 [OF an])
      with False show False ..
    qed
    have "fill_normals ms = []" using False by (simp add: fill_normals_def)
    then show ?thesis by (subst if_P [OF e])
  qed
  have c4: "if \<forall>i<nat vc. \<forall>vb \<in> set vbs. supplied_uv py vb i = None
          then fill_uvs ms = []
          else length (fill_uvs ms) = length (fill_verts ms) \<and>
               (\<forall>i<nat vc. (\<forall>vb \<in> set vbs. supplied_uv py vb i = None) \<longrightarrow>
                   fill_uvs ms ! i = (0, 0))"
  proof (cases "any_uvs ms")
    case True
    have l: "length (fill_uvs ms) = length (fill_verts ms)"
      using True len by (simp add: fill_uvs_def fill_verts_def)
    have ne: "\<not> (\<forall>i<nat vc. \<forall>vb \<in> set vbs. supplied_uv py vb i = None)"
      by (rule iffD1 [OF au True])
    have d: "\<forall>i<nat vc. (\<forall>vb \<in> set vbs. supplied_uv py vb i = None) \<longrightarrow>
                fill_uvs ms ! i = (0, 0)"
      by (intro allI impI) (rule u, assumption+, rule True)
    show ?thesis
      by (subst if_not_P [OF ne]) (rule conjI [OF l d])
  next
    case False
    have e: "\<forall>i<nat vc. \<forall>vb \<in> set vbs. supplied_uv py vb i = None"
    proof (rule ccontr)
      assume "\<not> (\<forall>i<nat vc. \<forall>vb \<in> set vbs. supplied_uv py vb i = None)"
      then have "any_uvs ms" by (rule iffD2 [OF au])
      with False show False ..
    qed
    have "fill_uvs ms = []" using False by (simp add: fill_uvs_def)
    then show ?thesis by (subst if_P [OF e])
  qed
  from c1 p c3 c4 show ?thesis by blast
qed

text \<open>
  Claim C4.  If fragment \<open>k\<close> supplies a position (normal, uv) for vertex \<open>i\<close> and
  no fragment declared after it does, the merged value is the one of fragment \<open>k\<close>,
  whatever the fragments before it supplied.
\<close>

theorem later_fragment_wins:
  assumes "merge_raw py vc g = Some ms" and "vbs = elem_findall g ''vertexbuffer''"
    and "i < nat vc" and "k < length vbs"
  shows "(supplied_pos py (vbs ! k) i = Some p \<and>
            (\<forall>k'. k < k' \<and> k' < length vbs \<longrightarrow> supplied_pos py (vbs ! k') i = None)
          \<longrightarrow> fill_verts ms ! i = p) \<and>
         (supplied_normal py (vbs ! k) i = Some n \<and>
            (\<forall>k'. k < k' \<and> k' < length vbs \<longrightarrow> supplied_normal py (vbs ! k') i = None)
          \<longrightarrow> fill_normals ms ! i = n) \<and>
         (supplied_uv py (vbs ! k) i = Some uv \<and>
            (\<forall>k'. k < k' \<and> k' < length vbs \<longrightarrow> supplied_uv py (vbs ! k') i = None)
          \<longrightarrow> fill_uvs ms ! i = uv)"
proof -
  have m: "merge_vbs py vc vbs (mstate_init vc) = Some ms"
    using assms by (simp add: merge_raw_def)
  note eff = merge_vbs_eff [OF m ms_len_init]
  have len: "length (local_verts ms) = nat vc" "length (local_normals ms) = nat vc"
            "length (local_uvs ms) = nat vc"
    using eff(1) by (simp_all add: ms_len_def)
  have a: "fill_verts ms ! i = p"
    if "supplied_pos py (vbs ! k) i = Some p"
       "\<forall>k'. k < k' \<and> k' < length vbs \<longrightarrow> supplied_pos py (vbs ! k') i = None"
  proof -
    have "last_some (map (\<lambda>vb. supplied_pos py vb i) vbs) = Some p"
      by (rule last_some_Some [of k]) (use that assms(4) in auto)
    then have "local_verts ms ! i = Some p"
      using eff(2) [OF assms(3)] by (simp add: keep_or_def)
    then show ?thesis using assms(3) len by (simp add: fill_verts_def)
  qed
  have b: "fill_normals ms ! i = n"
    if "supplied_normal py (vbs ! k) i = Some n"
       "\<forall>k'. k < k' \<and> k' < length vbs \<longrightarrow> supplied_normal py (vbs ! k') i = None"
  proof -
    have "last_some (map (\<lambda>vb. supplied_normal py vb i) vbs) = Some n"
      by (rule last_some_Some [of k]) (use that assms(4) in auto)
    then have "local_normals ms ! i = Some n"
      using eff(3) [OF assms(3)] by (simp add: keep_or_def)
    moreover have "any_normals ms"
    proof -
      have "vbs ! k \<in> set vbs" using assms(4) by simp
      moreover have "supplied_normal py (vbs ! k) i \<noteq> None" using that(1) by simp
      ultimately have "\<exists>vb \<in> set vbs. \<exists>i<nat vc. supplied_normal py vb i \<noteq> None"
        using assms(3) by blast
      then show ?thesis using eff(5) by simp
    qed
    ultimately show ?thesis using assms(3) len by (simp add: fill_normals_def)
  qed
  have c: "fill_uvs ms ! i = uv"
    if "supplied_uv py (vbs ! k) i = Some uv"
       "\<forall>k'. k < k' \<and> k' < length vbs \<longrightarrow> supplied_uv py (vbs ! k') i = None"
  proof -
    have "last_some (map (\<lambda>vb. supplied_uv py vb i) vbs) = Some uv"
      by (rule last_some_Some [of k]) (use that assms(4) in auto)
    then have "local_uvs ms ! i = Some uv"
      using eff(4) [OF assms(3)] by (simp add: keep_or_def)
    moreover have "any_uvs ms"
    proof -
      have "vbs ! k \<in> set vbs" using assms(4) by simp
      moreover have "supplied_uv py (vbs ! k) i \<noteq> None" using that(1) by simp
      ultimately have "\<exists>vb \<in> set vbs. \<exists>i<nat vc. supplied_uv py vb i \<noteq> None"
        using assms(3) by blast
      then show ?thesis using eff(6) by simp
    qed
    ultimately show ?thesis using assms(3) len by (simp add: fill_uvs_def)
  qed
  from a b c show ?thesis by blast
qed

lemma parse_geometry_append:
  "parse_geometry py g st = map_option (append_block st) (parse_geometry py g conv_init)"
  by (cases "vertex_count_of py g")
     (auto simp: parse_geometry_def append_block_def extend_conv_def conv_init_def
           option.map_comp comp_def split: option.splits)

lemma parse_geometry_lengths:
  assumes "parse_geometry py g conv_init = Some c"
  shows "normals c = [] \<or> length (normals c) = length (vertices c)"
    and "uvs c = [] \<or> length (uvs c) = length (vertices c)"
    and "submeshes c = []"
proof -
  consider "c = conv_init"
    | vc ms where "merge_raw py vc g = Some ms" "c = extend_conv ms conv_init"
    using assms by (auto simp: parse_geometry_def split: option.splits)
  then have "(normals c = [] \<or> length (normals c) = length (vertices c)) \<and>
             (uvs c = [] \<or> length (uvs c) = length (vertices c)) \<and> submeshes c = []"
  proof cases
    case 1
    then show ?thesis by (simp add: conv_init_def)
  next
    case 2
    have "ms_len vc ms"
      using 2(1) merge_vbs_eff(1) [OF _ ms_len_init] by (simp add: merge_raw_def)
    then show ?thesis using 2(2)
      by (simp add: extend_conv_def conv_init_def fill_normals_def fill_uvs_def fill_verts_def ms_len_def)
  qed
  then show "normals c = [] \<or> length (normals c) = length (vertices c)"
    and "uvs c = [] \<or> length (uvs c) = length (vertices c)"
    and "submeshes c = []" by simp_all
qed

lemma parse_submesh_lengths:
  assumes "parse_submesh py sm idx st = Some st'"
  shows "length (vertices st') = length (vertices st) + sum_list (map (block_nverts py) (local_block sm))"
    and "length (normals st') = length (normals st) + sum_list (map (block_nnormals py) (local_block sm))"
  using assms
  by (auto simp: parse_submesh_def submesh_geometry_def local_block_def bind_eq_Some_conv
        parse_geometry_append [of py _ st] append_block_def block_nverts_def block_nnormals_def
        split: if_splits option.splits)

lemma parse_submeshes_lengths:
  "parse_submeshes py idx sms st = Some st' \<Longrightarrow>
   length (vertices st') = length (vertices st) + sum_list (map (block_nverts py) (concat (map local_block sms))) \<and>
   length (normals st') = length (normals st) + sum_list (map (block_nnormals py) (concat (map local_block sms)))"
proof (induction sms arbitrary: idx st)
  case Nil
  then show ?case by simp
next
  case (Cons sm sms)
  then obtain st1 where a: "parse_submesh py sm idx st = Some st1"
    and b: "parse_submeshes py (Suc idx) sms st1 = Some st'"
    by (auto simp: bind_eq_Some_conv)
  from Cons.IH [OF b] parse_submesh_lengths [OF a] show ?case by simp
qed

lemma parse_mesh_xml_lengths:
  assumes "parse_mesh_xml py r = Some st"
  shows "length (vertices st) = sum_list (map (block_nverts py) (geometry_blocks r))"
    and "length (normals st) = sum_list (map (block_nnormals py) (geometry_blocks r))"
proof -
  from assms obtain st1 where
    a: "(case elem_find r ''sharedgeometry'' of None \<Rightarrow> Some conv_init
         | Some g \<Rightarrow> parse_geometry py g conv_init) = Some st1"
    and b: "(case elem_find r ''submeshes'' of None \<Rightarrow> Some st1
         | Some sms \<Rightarrow> parse_submeshes py 0 (elem_findall sms ''submesh'') st1) = Some st"
    by (auto simp: parse_mesh_xml_def bind_eq_Some_conv)
  have s1: "length (vertices st1) =
              sum_list (map (block_nverts py) (case elem_find r ''sharedgeometry'' of None \<Rightarrow> [] | Some g \<Rightarrow> [g]))"
           "length (normals st1) =
              sum_list (map (block_nnormals py) (case elem_find r ''sharedgeometry'' of None \<Rightarrow> [] | Some g \<Rightarrow> [g]))"
    using a by (auto simp: conv_init_def block_nverts_def block_nnormals_def split: option.splits)
  show "length (vertices st) = sum_list (map (block_nverts py) (geometry_blocks r))"
    using b s1 by (auto simp: geometry_blocks_def split: option.splits dest!: parse_submeshes_lengths)
  show "length (normals st) = sum_list (map (block_nnormals py) (geometry_blocks r))"
    using b s1 by (auto simp: geometry_blocks_def split: option.splits dest!: parse_submeshes_lengths)
qed

lemma block_nnormals_le: "block_nnormals py g \<le> block_nverts py g"
  using parse_geometry_lengths(1) [of py g]
  by (auto simp: block_nnormals_def block_nverts_def split: option.splits)

lemma sum_list_strict:
  fixes f h :: "'a \<Rightarrow> nat"
  assumes "\<And>x. f x \<le> h x" and "g \<in> set xs" and "f g < h g"
  shows "sum_list (map f xs) < sum_list (map h xs)"
  using assms(2)
proof (induction xs)
  case Nil
  then show ?case by simp
next
  case (Cons x xs)
  have le: "sum_list (map f xs) \<le> sum_list (map h xs)"
    by (rule sum_list_mono) (rule assms(1))
  show ?case
  proof (cases "g = x")
    case True
    with assms(3) le show ?thesis by simp
  next
    case False
    with Cons have "sum_list (map f xs) < sum_list (map h xs)" by simp
    with assms(1) [of x] show ?thesis by simp
  qed
qed

lemma deficient_block_disables_normals:
  assumes "parse_mesh_xml py r = Some st" and "g \<in> set (geometry_blocks r)"
    and "parse_geometry py g conv_init = Some c" and "normals c = []" and "vertices c \<noteq> []"
  shows "\<not> have_normals st"
proof -
  have "block_nnormals py g < block_nverts py g"
    using assms(3-5) by (simp add: block_nnormals_def block_nverts_def)
  then have "sum_list (map (block_nnormals py) (geometry_blocks r)) <
             sum_list (map (block_nverts py) (geometry_blocks r))"
    by (rule sum_list_strict [OF block_nnormals_le assms(2)])
  then show ?thesis
    using parse_mesh_xml_lengths [OF assms(1)] by (simp add: have_normals_def)
qed

lemma is_face_line_face: "is_face_line (face_line hu hn f)"
  by (cases f) (simp add: is_face_line_def startswith_def face_line_def face_with_def)

lemma filter_face_lines: "filter is_face_line (map (face_line hu hn) fs) = map (face_line hu hn) fs"
  by (induction fs) (simp_all add: is_face_line_face)

lemma filter_submesh_lines:
  "filter is_face_line (submesh_lines base mtl hu hn (idx, sm)) = map (face_line hu hn) (faces sm)"
  by (cases mtl)
     (simp_all add: submesh_lines_def filter_face_lines is_face_line_def startswith_def blank_def)

lemma filter_all_submesh_lines:
  "filter is_face_line (concat (map (submesh_lines base mtl hu hn) (enumerate n sms))) =
   concat (map (\<lambda>sm. map (face_line hu hn) (faces sm)) sms)"
  by (induction sms arbitrary: n) (simp_all add: filter_submesh_lines)

lemma write_obj_face_lines:
  "filter is_face_line (write_obj py base mtl st) =
   concat (map (\<lambda>sm. map (face_line (have_uvs st) (have_normals st)) (faces sm)) (submeshes st))"
  by (cases mtl)
     (auto simp: write_obj_def filter_all_submesh_lines filter_empty_conv is_face_line_def
        startswith_def blank_def)

lemma face_of_shift: "face_of py off face = map_option (shift off) (source_indices py face)"
  by (auto simp: face_of_def source_indices_def shift_def split: bind_splits)

lemma map_opt_shift:
  "map_opt (face_of py off) fs = map_option (map (shift off)) (map_opt (source_indices py) fs)"
  by (induction fs) (auto simp: face_of_shift split: bind_splits)

lemma submesh_faces_shift:
  "submesh_faces py off sm = map_option (map (shift off)) (source_faces py sm)"
  by (simp add: submesh_faces_def source_faces_def map_opt_shift split: option.splits)

lemma parse_submesh_offset:
  assumes "parse_submesh py sm idx st = Some st'"
  shows "\<exists>src. source_faces py sm = Some src \<and>
           map faces (submeshes st') =
             map faces (submeshes st) @
               [map (shift (if uses_shared sm then 0 else int (length (vertices st)))) src]"
proof -
  from assms obtain off st1 fs where
    g: "submesh_geometry py sm st = Some (off, st1)" and
    f: "submesh_faces py off sm = Some fs" and
    r: "map faces (submeshes st') = map faces (submeshes st1) @ [fs]"
    by (auto simp: parse_submesh_def bind_eq_Some_conv)
  from g have off: "off = (if uses_shared sm then 0 else int (length (vertices st)))"
    and sub: "submeshes st1 = submeshes st"
    by (auto simp: submesh_geometry_def parse_geometry_append [of py _ st] append_block_def
          split: if_splits option.splits)
  from f obtain src where "source_faces py sm = Some src" "fs = map (shift off) src"
    by (auto simp: submesh_faces_shift)
  with r off sub show ?thesis by simp
qed

lemma parse_submesh_local:
  assumes "parse_submesh py sm idx st = Some st'" and "\<not> uses_shared sm"
    and "elem_find sm ''geometry'' = Some g"
  shows "\<exists>c. parse_geometry py g conv_init = Some c \<and>
              length (vertices st') = length (vertices st) + length (vertices c)"
  using assms
  by (auto simp: parse_submesh_def submesh_geometry_def bind_eq_Some_conv
        parse_geometry_append [of py _ st] append_block_def)

lemma shared_then_two_local:
  assumes "elem_find r ''sharedgeometry'' = Some g0"
    and "elem_find r ''submeshes'' = Some sms"
    and "elem_findall sms ''submesh'' = [s1, s2]"
    and "\<not> uses_shared s1" and "\<not> uses_shared s2"
    and "elem_find s1 ''geometry'' = Some g1"
    and "parse_mesh_xml py r = Some st"
  shows "\<exists>c0 c1 src1 src2.
           parse_geometry py g0 conv_init = Some c0 \<and> parse_geometry py g1 conv_init = Some c1 \<and>
           source_faces py s1 = Some src1 \<and> source_faces py s2 = Some src2 \<and>
           map faces (submeshes st) =
             [map (shift (int (length (vertices c0)))) src1,
              map (shift (int (length (vertices c0)) + int (length (vertices c1)))) src2]"
proof -
  from assms(1,2,3,7) obtain c0 st1 where
    c0: "parse_geometry py g0 conv_init = Some c0" and
    p1: "parse_submesh py s1 0 c0 = Some st1" and
    p2: "parse_submesh py s2 (Suc 0) st1 = Some st"
    by (auto simp: parse_mesh_xml_def bind_eq_Some_conv)
  from parse_submesh_offset [OF p1] assms(4) obtain src1 where
    s1: "source_faces py s1 = Some src1"
    "map faces (submeshes st1) = map faces (submeshes c0) @ [map (shift (int (length (vertices c0)))) src1]"
    by auto
  from parse_submesh_offset [OF p2] assms(5) obtain src2 where
    s2: "source_faces py s2 = Some src2"
    "map faces (submeshes st) = map faces (submeshes st1) @ [map (shift (int (length (vertices st1)))) src2]"
    by auto
  from parse_submesh_local [OF p1 assms(4,6)] obtain c1 where
    c1: "parse_geometry py g1 conv_init = Some c1"
    "length (vertices st1) = length (vertices c0) + length (vertices c1)" by auto
  have "submeshes c0 = []" by (rule parse_geometry_lengths(3) [OF c0])
  with s1 s2 c1 c0 show ?thesis by simp
qed

lemmas elem_defs = elem_get_default_def elem_get_def elem_findall_def elem_find_def el_def xyz_def
  vtx_def face3_def

lemmas merge_defs = parse_geometry_def vertex_count_of_def merge_raw_def merge_vbs_def merge_vb_def
  vb_flags_def tex_coords_of_def mstate_init_def merge_vertex_def set_position_def set_normal_def
  set_uv_def find_texcoord_def read_xyz_def read_uv_def float_attr_def flip_v_small extend_conv_def
  fill_verts_def fill_normals_def fill_uvs_def conv_init_def

lemma ex_py_simps:
  "py_int ex_py ''0'' = Some 0" "py_int ex_py ''1'' = Some 1" "py_int ex_py ''2'' = Some 2"
  "py_float ex_py ''0'' = Some 0" "py_float ex_py ''1'' = Some 1"
  by (simp_all add: ex_py_def dec_int_simps)

lemma ex_g0_block:
  "parse_geometry ex_py ex_g0 conv_init = Some \<lparr>vertices = [(0, 0, 0)], normals = [], uvs = [], submeshes = []\<rparr>"
  by (simp add: ex_g0_def merge_defs elem_defs is_true_simps ex_py_simps)

lemma ex_g1_block:
  "parse_geometry ex_py ex_g1 st =
     Some (st\<lparr>vertices := vertices st @ [(1, 0, 0), (0, 1, 0)], normals := normals st @ [(0, 0, 1), (0, 0, 1)],
            uvs := uvs st\<rparr>)"
  by (simp add: ex_g1_def merge_defs elem_defs is_true_simps ex_py_simps numeral_2_eq_2)

lemma ex_g2_block:
  "parse_geometry ex_py ex_g2 st = Some (st\<lparr>vertices := vertices st @ [(1, 1, 1)], normals := normals st, uvs := uvs st\<rparr>)"
  by (simp add: ex_g2_def merge_defs elem_defs is_true_simps ex_py_simps)

lemma cex_g0_block:
  "parse_geometry ex_py cex_g0 conv_init = Some conv_init"
  by (simp add: cex_g0_def merge_defs elem_defs ex_py_simps merge_vbs_def)

lemmas submesh_defs = parse_mesh_xml_def parse_submesh_def submesh_geometry_def submesh_faces_def
  face_of_def int_attr_def uses_shared_def

lemma show_nat_digits:
  "show_nat (Suc 0) = ''1''" "show_nat 0 = ''0''" "show_nat 1 = ''1''" "show_nat 2 = ''2''" "show_nat 3 = ''3''" "show_nat 4 = ''4''"
  by (simp_all add: show_nat.simps)

lemma ex_mesh_parse:
  "parse_mesh_xml ex_py ex_mesh =
     Some \<lparr>vertices = [(0, 0, 0), (1, 0, 0), (0, 1, 0), (1, 1, 1)],
           normals = [(0, 0, 1), (0, 0, 1)], uvs = [],
           submeshes = [\<lparr>material = ''m1'', faces = [(2, 3, 3)], index = 0\<rparr>,
                        \<lparr>material = ''material_1'', faces = [(4, 4, 4)], index = 1\<rparr>]\<rparr>"
proof -
  have a: "elem_find ex_mesh ''sharedgeometry'' = Some ex_g0"
    "elem_find ex_mesh ''submeshes'' = Some (el ''submeshes'' [] [ex_s1, ex_s2])"
    "elem_findall (el ''submeshes'' [] [ex_s1, ex_s2]) ''submesh'' = [ex_s1, ex_s2]"
    by (simp_all add: ex_mesh_def ex_g0_def ex_s1_def ex_s2_def elem_find_def elem_findall_def el_def)
  have b: "elem_find ex_s1 ''geometry'' = Some ex_g1" "elem_find ex_s2 ''geometry'' = Some ex_g2"
    "elem_find ex_s1 ''faces'' = Some (el ''faces'' [] [face3 ''0'' ''1'' ''1''])"
    "elem_find ex_s2 ''faces'' = Some (el ''faces'' [] [face3 ''0'' ''0'' ''0''])"
    "uses_shared ex_s1 = False" "uses_shared ex_s2 = False"
    "elem_get_default ex_s1 ''material'' d = ''m1''" "elem_get_default ex_s2 ''material'' d = d" for d
    by (simp_all add: ex_s1_def ex_s2_def ex_g1_def ex_g2_def elem_find_def elem_get_def el_def
          uses_shared_def elem_get_default_def is_true_simps)
  have c: "elem_findall (el ''faces'' [] [face3 x y z]) ''face'' = [face3 x y z]"
    "int_attr ex_py (face3 x y z) ''v1'' = py_int ex_py x"
    "int_attr ex_py (face3 x y z) ''v2'' = py_int ex_py y"
    "int_attr ex_py (face3 x y z) ''v3'' = py_int ex_py z" for x y z
    by (simp_all add: elem_findall_def int_attr_def elem_get_def face3_def el_def)
  show ?thesis
    by (simp add: parse_mesh_xml_def parse_submesh_def submesh_geometry_def submesh_faces_def
          face_of_def a b c ex_g0_block ex_g1_block ex_g2_block ex_py_simps show_nat_digits)
qed

text \<open>
  Claim C1 (as amended).  The exporter's two flags hold exactly when the global normal
  (uv) sequence is non-empty and as long as the global vertex sequence.  The face lines
  of the written file are, submesh by submesh and face by face, the encoding chosen by
  these two flags alone.  If the mesh was parsed from a tree in which some geometry
  block contributes at least one vertex and no normal, the normals flag is off and every
  face line is a position/uv or a position-only line.
\<close>

theorem face_lines_follow_mesh_flags:
  "(have_normals st \<longleftrightarrow> normals st \<noteq> [] \<and> length (normals st) = length (vertices st)) \<and>
   (have_uvs st \<longleftrightarrow> uvs st \<noteq> [] \<and> length (uvs st) = length (vertices st)) \<and>
   filter is_face_line (write_obj py base mtl st) =
     concat (map (\<lambda>sm. map (face_line (have_uvs st) (have_normals st)) (faces sm)) (submeshes st)) \<and>
   face_line hu False f = (if hu then face_with ref_vt f else face_with show_int f) \<and>
   (parse_mesh_xml py r = Some st \<and> g \<in> set (geometry_blocks r) \<and>
    parse_geometry py g conv_init = Some c \<and> normals c = [] \<and> vertices c \<noteq> [] \<longrightarrow>
      \<not> have_normals st \<and>
      filter is_face_line (write_obj py base mtl st) =
        concat (map (\<lambda>sm. map (face_line (have_uvs st) False) (faces sm)) (submeshes st)))"
proof -
  have a: "have_normals st \<longleftrightarrow> normals st \<noteq> [] \<and> length (normals st) = length (vertices st)"
    by (auto simp: have_normals_def)
  have b: "have_uvs st \<longleftrightarrow> uvs st \<noteq> [] \<and> length (uvs st) = length (vertices st)"
    by (auto simp: have_uvs_def)
  note c = write_obj_face_lines [of py base mtl st]
  have d: "face_line hu False f = (if hu then face_with ref_vt f else face_with show_int f)"
    by (simp add: face_line_def)
  have e: "\<not> have_normals st \<and>
      filter is_face_line (write_obj py base mtl st) =
        concat (map (\<lambda>sm. map (face_line (have_uvs st) False) (faces sm)) (submeshes st))"
    if "parse_mesh_xml py r = Some st \<and> g \<in> set (geometry_blocks r) \<and>
        parse_geometry py g conv_init = Some c \<and> normals c = [] \<and> vertices c \<noteq> []"
  proof -
    have "\<not> have_normals st"
      using that deficient_block_disables_normals [of py r st g c] by blast
    with c show ?thesis by simp
  qed
  from a b c d e show ?thesis by blast
qed

lemma ex_mesh_blocks: "geometry_blocks ex_mesh = [ex_g0, ex_g1, ex_g2]"
  by (simp add: geometry_blocks_def local_block_def ex_mesh_def ex_s1_def ex_s2_def ex_g0_def
        ex_g1_def ex_g2_def uses_shared_def elem_get_default_def elem_get_def elem_find_def
        elem_findall_def el_def is_true_simps)

lemma show_int_digits:
  "show_int 1 = ''1''" "show_int 2 = ''2''" "show_int 3 = ''3''" "show_int 4 = ''4''"
  by (simp_all add: show_int_def show_nat_digits)

text \<open>
  Claim C1, witness: a shared block of one vertex without normals, followed by a local
  block with normals.
\<close>

theorem face_lines_follow_mesh_flags_witness:
  "\<exists>st. parse_mesh_xml ex_py ex_mesh = Some st \<and> ex_g0 \<in> set (geometry_blocks ex_mesh) \<and>
        \<not> have_normals st \<and>
        filter is_face_line (write_obj ex_py ''m'' None st) = [''f 2 3 3'', ''f 4 4 4'']"
proof -
  let ?st = "\<lparr>vertices = [(0, 0, 0), (1, 0, 0), (0, 1, 0), (1, 1, 1)],
           normals = [(0, 0, 1), (0, 0, 1)], uvs = [],
           submeshes = [\<lparr>material = ''m1'', faces = [(2, 3, 3)], index = 0\<rparr>,
                        \<lparr>material = ''material_1'', faces = [(4, 4, 4)], index = 1\<rparr>]\<rparr>"
  have h: "parse_mesh_xml ex_py ex_mesh = Some ?st \<and> ex_g0 \<in> set (geometry_blocks ex_mesh) \<and>
        parse_geometry ex_py ex_g0 conv_init =
          Some \<lparr>vertices = [(0, 0, 0)], normals = [], uvs = [], submeshes = []\<rparr> \<and>
        normals \<lparr>vertices = [(0, 0, 0)], normals = [], uvs = [], submeshes = []\<rparr> = [] \<and>
        vertices \<lparr>vertices = [(0::real, 0::real, 0::real)], normals = [], uvs = [], submeshes = []\<rparr> \<noteq> []"
    by (simp add: ex_mesh_parse ex_mesh_blocks ex_g0_block)
  from face_lines_follow_mesh_flags [of ?st ex_py "''m''" None False "(0, 0, 0)" ex_mesh ex_g0
      "\<lparr>vertices = [(0, 0, 0)], normals = [], uvs = [], submeshes = []\<rparr>"] h
  have "\<not> have_normals ?st \<and>
      filter is_face_line (write_obj ex_py ''m'' None ?st) =
        concat (map (\<lambda>sm. map (face_line (have_uvs ?st) False) (faces sm)) (submeshes ?st))"
    by blast
  then have "\<not> have_normals ?st \<and>
      filter is_face_line (write_obj ex_py ''m'' None ?st) = [''f 2 3 3'', ''f 4 4 4'']"
    by (simp add: have_uvs_def face_line_def face_with_def show_int_digits)
  with h show ?thesis by blast
qed

text \<open>
  Claim C1, counterexample to the claim as stated: the shared block declares zero
  vertices and so contributes no normals, a non-empty local block contributes normals,
  and the face line still carries normal references.
\<close>

theorem empty_block_keeps_normals_counterexample:
  "\<exists>st c0 c1. parse_mesh_xml ex_py cex_mesh = Some st \<and>
      geometry_blocks cex_mesh = [cex_g0, ex_g1] \<and>
      parse_geometry ex_py cex_g0 conv_init = Some c0 \<and> normals c0 = [] \<and>
      parse_geometry ex_py ex_g1 conv_init = Some c1 \<and> vertices c1 \<noteq> [] \<and> normals c1 \<noteq> [] \<and>
      have_normals st \<and>
      filter is_face_line (write_obj ex_py ''m'' None st) = [''f 1//1 2//2 2//2'']"
proof -
  have a: "elem_find cex_mesh ''sharedgeometry'' = Some cex_g0"
    "elem_find cex_mesh ''submeshes'' = Some (el ''submeshes'' [] [ex_s1])"
    "elem_findall (el ''submeshes'' [] [ex_s1]) ''submesh'' = [ex_s1]"
    by (simp_all add: cex_mesh_def cex_g0_def ex_s1_def elem_find_def elem_findall_def el_def)
  have b: "elem_find ex_s1 ''geometry'' = Some ex_g1"
    "elem_find ex_s1 ''faces'' = Some (el ''faces'' [] [face3 ''0'' ''1'' ''1''])"
    "uses_shared ex_s1 = False" "elem_get_default ex_s1 ''material'' d = ''m1''" for d
    by (simp_all add: ex_s1_def ex_g1_def elem_find_def elem_get_def el_def
          uses_shared_def elem_get_default_def is_true_simps)
  have c: "elem_findall (el ''faces'' [] [face3 x y z]) ''face'' = [face3 x y z]"
    "int_attr ex_py (face3 x y z) ''v1'' = py_int ex_py x"
    "int_attr ex_py (face3 x y z) ''v2'' = py_int ex_py y"
    "int_attr ex_py (face3 x y z) ''v3'' = py_int ex_py z" for x y z
    by (simp_all add: elem_findall_def int_attr_def elem_get_def face3_def el_def)
  let ?st = "\<lparr>vertices = [(1, 0, 0), (0, 1, 0)], normals = [(0, 0, 1), (0, 0, 1)], uvs = [],
           submeshes = [\<lparr>material = ''m1'', faces = [(1, 2, 2)], index = 0\<rparr>]\<rparr>"
  have p: "parse_mesh_xml ex_py cex_mesh = Some ?st"
    by (simp add: parse_mesh_xml_def parse_submesh_def submesh_geometry_def submesh_faces_def
          face_of_def a b c cex_g0_block [unfolded conv_init_def] ex_g1_block ex_py_simps conv_init_def)
  have g: "geometry_blocks cex_mesh = [cex_g0, ex_g1]"
    by (simp add: geometry_blocks_def local_block_def a b)
  have w: "have_normals ?st \<and> filter is_face_line (write_obj ex_py ''m'' None ?st) = [''f 1//1 2//2 2//2'']"
    by (simp add: write_obj_face_lines have_normals_def have_uvs_def face_line_def face_with_def
          ref_vn_def show_int_digits)
  have c1: "parse_geometry ex_py ex_g1 conv_init =
      Some \<lparr>vertices = [(1, 0, 0), (0, 1, 0)], normals = [(0, 0, 1), (0, 0, 1)], uvs = [], submeshes = []\<rparr>"
    by (simp add: ex_g1_block conv_init_def)
  show ?thesis
    using p g w c1 cex_g0_block by (auto simp: conv_init_def)
qed

lemma ex_geom_vbs: "elem_findall ex_geom ''vertexbuffer'' = [ex_vb1, ex_vb2]"
  by (simp add: ex_geom_def ex_vb1_def ex_vb2_def elem_findall_def el_def)

lemmas supplied_defs = supplied_pos_def supplied_normal_def supplied_uv_def vertex_pos_def
  vertex_normal_def vertex_uv_def tex_coords_of_def find_texcoord_def read_xyz_def read_uv_def
  float_attr_def flip_v_small elem_get_default_def elem_get_def elem_findall_def elem_find_def
  el_def xyz_def

lemma ex_supplied:
  "supplied_pos ex_py ex_vb1 0 = Some (1, 0, 0)" "supplied_pos ex_py ex_vb2 0 = Some (1, 1, 1)"
  "supplied_pos ex_py ex_vb1 2 = None" "supplied_pos ex_py ex_vb2 2 = None"
  "supplied_normal ex_py ex_vb1 0 = Some (0, 0, 1)"
  "supplied_normal ex_py ex_vb1 2 = None" "supplied_normal ex_py ex_vb2 2 = None"
  "supplied_uv ex_py ex_vb2 0 = Some (0, 1)"
  "supplied_uv ex_py ex_vb1 2 = None" "supplied_uv ex_py ex_vb2 2 = None"
  by (simp_all add: supplied_defs ex_vb1_def ex_vb2_def is_true_simps ex_py_simps)

text \<open>
  Claim C3, witness: a block of three vertices, two fragments, vertex 2 supplied by none.
\<close>

theorem merge_all_or_nothing_witness:
  "\<exists>ms. merge_raw ex_py 3 ex_geom = Some ms \<and>
        length (fill_verts ms) = 3 \<and> fill_verts ms ! 2 = (0, 0, 0) \<and>
        length (fill_normals ms) = 3 \<and> fill_normals ms ! 2 = (0, 1, 0) \<and>
        length (fill_uvs ms) = 3 \<and> fill_uvs ms ! 2 = (0, 0)"
proof -
  let ?ms = "\<lparr>local_verts = [Some (1, 1, 1), Some (0, 1, 0), None],
           local_normals = [Some (0, 0, 1), None, None],
           local_uvs = [Some (0, 1), None, None], any_normals = True, any_uvs = True\<rparr>"
  let ?vbs = "[ex_vb1, ex_vb2]"
  note t = merge_all_or_nothing [OF ex_merge ex_geom_vbs [symmetric]]
  have n: "\<not> (\<forall>i<nat 3. \<forall>vb \<in> set ?vbs. supplied_normal ex_py vb i = None)"
  proof
    assume "\<forall>i<nat 3. \<forall>vb \<in> set ?vbs. supplied_normal ex_py vb i = None"
    then have "supplied_normal ex_py ex_vb1 0 = None" by simp
    then show False by (simp add: ex_supplied)
  qed
  have u: "\<not> (\<forall>i<nat 3. \<forall>vb \<in> set ?vbs. supplied_uv ex_py vb i = None)"
  proof
    assume "\<forall>i<nat 3. \<forall>vb \<in> set ?vbs. supplied_uv ex_py vb i = None"
    then have "supplied_uv ex_py ex_vb2 0 = None" by simp
    then show False by (simp add: ex_supplied)
  qed
  have two: "(2::nat) < nat 3" by simp
  note t1 = t [THEN conjunct1]
  note t2 = t [THEN conjunct2, THEN conjunct1]
  note t3 = t [THEN conjunct2, THEN conjunct2, THEN conjunct1]
  note t4 = t [THEN conjunct2, THEN conjunct2, THEN conjunct2]
  have a: "length (fill_verts ?ms) = 3" using t1 by simp
  have "\<forall>vb \<in> set ?vbs. supplied_pos ex_py vb 2 = None" by (simp add: ex_supplied)
  with t2 two have b: "fill_verts ?ms ! 2 = (0, 0, 0)" by blast
  have c: "length (fill_normals ?ms) = length (fill_verts ?ms) \<and>
           (\<forall>i<nat 3. (\<forall>vb \<in> set ?vbs. supplied_normal ex_py vb i = None) \<longrightarrow>
                   fill_normals ?ms ! i = (0, 1, 0))"
    using t3 unfolding if_not_P [OF n] .
  have d: "length (fill_uvs ?ms) = length (fill_verts ?ms) \<and>
           (\<forall>i<nat 3. (\<forall>vb \<in> set ?vbs. supplied_uv ex_py vb i = None) \<longrightarrow>
                   fill_uvs ?ms ! i = (0, 0))"
    using t4 unfolding if_not_P [OF u] .
  have "\<forall>vb \<in> set ?vbs. supplied_normal ex_py vb 2 = None" by (simp add: ex_supplied)
  with c two have e: "fill_normals ?ms ! 2 = (0, 1, 0)" by blast
  have "\<forall>vb \<in> set ?vbs. supplied_uv ex_py vb 2 = None" by (simp add: ex_supplied)
  with d two have f: "fill_uvs ?ms ! 2 = (0, 0)" by blast
  from c a have c': "length (fill_normals ?ms) = 3" by simp
  from d a have d': "length (fill_uvs ?ms) = 3" by simp
  from a b c' d' e f ex_merge show ?thesis by blast
qed

text \<open>
  Claim C4, witness: both fragments supply a position for vertex 0; the second one stays.
\<close>

theorem later_fragment_wins_witness:
  "\<exists>ms. merge_raw ex_py 3 ex_geom = Some ms \<and>
        supplied_pos ex_py ex_vb1 0 = Some (1, 0, 0) \<and>
        supplied_pos ex_py ex_vb2 0 = Some (1, 1, 1) \<and>
        fill_verts ms ! 0 = (1, 1, 1)"
proof -
  let ?ms = "\<lparr>local_verts = [Some (1, 1, 1), Some (0, 1, 0), None],
           local_normals = [Some (0, 0, 1), None, None],
           local_uvs = [Some (0, 1), None, None], any_normals = True, any_uvs = True\<rparr>"
  have i: "(0::nat) < nat 3" and k: "Suc 0 < length [ex_vb1, ex_vb2]" by simp_all
  note t = later_fragment_wins [OF ex_merge ex_geom_vbs [symmetric] i k, of "(1, 1, 1)"]
  have "fill_verts ?ms ! 0 = (1, 1, 1)"
    using t by (simp add: ex_supplied)
  with ex_merge ex_supplied(1,2) show ?thesis by simp
qed

text \<open>
  Claim C2.  A submesh that does not use shared vertices gets as offset the length of
  the global vertex sequence before its own block is merged, one that uses them gets 0,
  and every output index is the source index plus the offset plus one.  For a shared
  block followed by two submeshes with local geometry, the offsets are the size of the
  shared block and that size plus the size of the first local block.
\<close>

theorem submesh_offsets:
  "(parse_submesh py sm idx st = Some st' \<longrightarrow>
      (\<exists>src. source_faces py sm = Some src \<and>
         map faces (submeshes st') =
           map faces (submeshes st) @
             [map (shift (if uses_shared sm then 0 else int (length (vertices st)))) src])) \<and>
   shift off (a, b, c) = (a + off + 1, b + off + 1, c + off + 1) \<and>
   (elem_find r ''sharedgeometry'' = Some g0 \<and> elem_find r ''submeshes'' = Some sms \<and>
    elem_findall sms ''submesh'' = [s1, s2] \<and> \<not> uses_shared s1 \<and> \<not> uses_shared s2 \<and>
    elem_find s1 ''geometry'' = Some g1 \<and> parse_mesh_xml py r = Some mesh \<longrightarrow>
      (\<exists>c0 c1 src1 src2.
         parse_geometry py g0 conv_init = Some c0 \<and> parse_geometry py g1 conv_init = Some c1 \<and>
         source_faces py s1 = Some src1 \<and> source_faces py s2 = Some src2 \<and>
         map faces (submeshes mesh) =
           [map (shift (int (length (vertices c0)))) src1,
            map (shift (int (length (vertices c0)) + int (length (vertices c1)))) src2]))"
  using parse_submesh_offset [of py sm idx st st']
    shared_then_two_local [of r g0 sms s1 s2 g1 py mesh]
  by (simp add: shift_def)

text \<open>
  Claim C2, witness: a shared block of one vertex, local blocks of two and one vertices.
\<close>

theorem submesh_offsets_witness:
  "\<exists>st. parse_mesh_xml ex_py ex_mesh = Some st \<and>
        map faces (submeshes st) = [[(2, 3, 3)], [(4, 4, 4)]] \<and>
        source_faces ex_py ex_s1 = Some [(0, 1, 1)] \<and> source_faces ex_py ex_s2 = Some [(0, 0, 0)]"
proof -
  let ?sms = "el ''submeshes'' [] [ex_s1, ex_s2]"
  have h: "elem_find ex_mesh ''sharedgeometry'' = Some ex_g0 \<and>
    elem_find ex_mesh ''submeshes'' = Some ?sms \<and>
    elem_findall ?sms ''submesh'' = [ex_s1, ex_s2] \<and> \<not> uses_shared ex_s1 \<and> \<not> uses_shared ex_s2 \<and>
    elem_find ex_s1 ''geometry'' = Some ex_g1"
    by (simp add: ex_mesh_def ex_g0_def ex_s1_def ex_s2_def ex_g1_def elem_find_def elem_findall_def
          el_def uses_shared_def elem_get_default_def elem_get_def is_true_simps)
  have s: "source_faces ex_py ex_s1 = Some [(0, 1, 1)]" "source_faces ex_py ex_s2 = Some [(0, 0, 0)]"
    by (simp_all add: source_faces_def source_indices_def int_attr_def ex_s1_def ex_s2_def ex_g1_def
          ex_g2_def face3_def elem_find_def elem_findall_def elem_get_def el_def ex_py_simps)
  obtain st where p: "parse_mesh_xml ex_py ex_mesh = Some st" by (simp add: ex_mesh_parse)
  have hp: "elem_find ex_mesh ''sharedgeometry'' = Some ex_g0 \<and>
    elem_find ex_mesh ''submeshes'' = Some ?sms \<and>
    elem_findall ?sms ''submesh'' = [ex_s1, ex_s2] \<and> \<not> uses_shared ex_s1 \<and> \<not> uses_shared ex_s2 \<and>
    elem_find ex_s1 ''geometry'' = Some ex_g1 \<and> parse_mesh_xml ex_py ex_mesh = Some st"
    using h p by simp
  note t = submesh_offsets [of ex_py ex_s1 0 conv_init conv_init 0 0 0 0 ex_mesh ex_g0 ?sms ex_s1 ex_s2 ex_g1 st,
      THEN conjunct2, THEN conjunct2, THEN mp, OF hp]
  then obtain c0 c1 src1 src2 where
    r: "parse_geometry ex_py ex_g0 conv_init = Some c0" "parse_geometry ex_py ex_g1 conv_init = Some c1"
       "source_faces ex_py ex_s1 = Some src1" "source_faces ex_py ex_s2 = Some src2"
       "map faces (submeshes st) =
           [map (shift (int (length (vertices c0)))) src1,
            map (shift (int (length (vertices c0)) + int (length (vertices c1)))) src2]"
    apply -
    apply (erule exE)+
    apply (erule conjE)+
    apply assumption
    done
  from r(1) have c0: "length (vertices c0) = 1" by (auto simp: ex_g0_block)
  from r(2) have c1: "length (vertices c1) = 2" by (auto simp: ex_g1_block conv_init_def)
  from r(3,4) s have "src1 = [(0, 1, 1)]" "src2 = [(0, 0, 0)]" by simp_all
  with r(5) c0 c1 have "map faces (submeshes st) = [[(2, 3, 3)], [(4, 4, 4)]]"
    by (simp add: shift_def)
  with p s show ?thesis by simp
qed

lemma rd_tenth: "rd (1 / 10) = 3602879701896397 / 2 ^ 55"
  by (subst rd_eq [of "- 4"]) (simp_all add: pow2_def round_even_def)

lemma flip_tenth: "flip_v (3602879701896397 / 2 ^ 55) = 8106479329266893 / 2 ^ 53"
  unfolding flip_v_def fsub_def
  by (subst rd_eq [of "- 1"]) (simp_all add: pow2_def round_even_def)

lemma flip_flip_tenth: "flip_v (8106479329266893 / 2 ^ 53) = 900719925474099 / 2 ^ 53"
  unfolding flip_v_def fsub_def
  by (subst rd_eq [of "- 4"]) (simp_all add: pow2_def round_even_def)

lemma flip_tiny: "flip_v (1 / 2 ^ 60) = 1"
  unfolding flip_v_def fsub_def by (rule rd_near_1)

text \<open>
  Claim C5 (as amended).  The stored V of a texture coordinate is the result of the
  float subtraction \<^verbatim>\<open>1.0 - v\<close>: the double nearest to 1 minus the source V.  Flipping
  the stored V a second time gives the source V back whenever the source V is a double
  and the first subtraction is exact.
\<close>

theorem uv_flip_rounded:
  assumes "set_uv py True i vertex ms = Some ms'" and "find_texcoord vertex = Some t"
    and "i < length (local_uvs ms)"
  shows "\<exists>u v. float_attr py t ''u'' = Some u \<and> float_attr py t ''v'' = Some v \<and>
               local_uvs ms' ! i = Some (u, rd (1 - v)) \<and> flip_v v = rd (1 - v) \<and>
               (rd v = v \<and> rd (1 - v) = 1 - v \<longrightarrow> flip_v (flip_v v) = v)"
  using assms
  by (auto simp: set_uv_def read_uv_def flip_v_def fsub_def bind_eq_Some_conv)

text \<open>
  Claim C5, witness: the texture coordinate (1, 0) is stored as (1, 1), and flipping 0
  twice gives 0 back.
\<close>

theorem uv_flip_rounded_witness:
  "\<exists>ms'. set_uv ex_py True 0 (vtx [el ''texcoord'' [(''u'', ''1''), (''v'', ''0'')] []])
            (mstate_init 1) = Some ms' \<and>
         local_uvs ms' ! 0 = Some (1, 1) \<and> rd 0 = 0 \<and> rd (1 - 0) = 1 - 0 \<and>
         flip_v (flip_v 0) = 0"
proof -
  let ?t = "el ''texcoord'' [(''u'', ''1''), (''v'', ''0'')] []"
  have f: "find_texcoord (vtx [?t]) = Some ?t"
    by (simp add: find_texcoord_def elem_find_def vtx_def el_def)
  have fa: "float_attr ex_py ?t ''u'' = Some 1" "float_attr ex_py ?t ''v'' = Some 0"
    by (simp_all add: float_attr_def elem_get_def el_def ex_py_simps)
  obtain ms' where s: "set_uv ex_py True 0 (vtx [?t]) (mstate_init 1) = Some ms'"
    by (simp add: set_uv_def f read_uv_def fa)
  have l: "0 < length (local_uvs (mstate_init 1))" by (simp add: mstate_init_def)
  have e: "rd 0 = 0" "rd (1 - 0) = 1 - 0" by (simp_all add: rd_0 rd_1)
  from uv_flip_rounded [OF s f l] fa e
  have "local_uvs ms' ! 0 = Some (1, 1) \<and> flip_v (flip_v 0) = 0" by (auto simp: rd_1)
  with s e show ?thesis by blast
qed

text \<open>
  Claim C5, counterexample to the claim as stated.  The double nearest to 0.1 is
  3602879701896397 / 2^55; its flip is the double 0.9, 8106479329266893 / 2^53, and the
  flip of that is 900719925474099 / 2^53, the double 0.09999999999999998, not the
  source V.  The double 2^-60 is flipped to 1, and 1 to 0.
\<close>

theorem uv_flip_not_involution_counterexample:
  "rd (1 / 10) = 3602879701896397 / 2 ^ 55 \<and>
   flip_v (rd (1 / 10)) = 8106479329266893 / 2 ^ 53 \<and>
   flip_v (flip_v (rd (1 / 10))) = 900719925474099 / 2 ^ 53 \<and>
   flip_v (flip_v (rd (1 / 10))) \<noteq> rd (1 / 10) \<and>
   rd (1 / 2 ^ 60) = 1 / 2 ^ 60 \<and>
   flip_v (flip_v (1 / 2 ^ 60)) = 0 \<and>
   flip_v (flip_v (1 / 2 ^ 60)) \<noteq> 1 / 2 ^ 60"
proof -
  have a: "rd (1 / 10) = 3602879701896397 / 2 ^ 55" by (rule rd_tenth)
  have b: "flip_v (rd (1 / 10)) = 8106479329266893 / 2 ^ 53"
    unfolding a by (rule flip_tenth)
  have c: "flip_v (flip_v (rd (1 / 10))) = 900719925474099 / 2 ^ 53"
    unfolding b by (rule flip_flip_tenth)
  have "(900719925474099 / 2 ^ 53 :: real) \<noteq> 3602879701896397 / 2 ^ 55" by simp
  then have d: "flip_v (flip_v (rd (1 / 10))) \<noteq> rd (1 / 10)"
    by (subst c, subst a)
  have e: "rd (1 / 2 ^ 60) = 1 / 2 ^ 60" by (rule rd_tiny)
  have f: "flip_v (flip_v (1 / 2 ^ 60)) = 0"
    unfolding flip_tiny by (rule flip_v_small(2))
  have "(0 :: real) \<noteq> 1 / 2 ^ 60" by simp
  then have g: "flip_v (flip_v (1 / 2 ^ 60)) \<noteq> 1 / 2 ^ 60"
    by (subst f)
  from a b c d e f g show ?thesis by blast
qed

lemma threshold_eq: "threshold = 4722366482869645 / 2 ^ 72"
  by (simp only: threshold_def rd_micro)

lemma threshold_pos: "0 < threshold"
  by (simp add: threshold_eq)

lemma threshold_less_1: "threshold < 1"
  by (simp add: threshold_eq)











lemma round_even_le: "r \<le> of_int n \<Longrightarrow> round_even r \<le> n"
  unfolding round_even_def by (auto simp: le_floor_iff floor_le_iff)

lemma round_even_ge: "of_int n \<le> r \<Longrightarrow> n \<le> round_even r"
  unfolding round_even_def by (auto simp: le_floor_iff) linarith+

lemma pow2_add: "pow2 (k + l) = pow2 k * pow2 l"
  by (simp add: pow2_powr powr_add)




lemma rd_bound:
  assumes "\<bar>x\<bar> \<le> pow2 k" and "- 1022 \<le> k"
  shows "\<bar>rd x\<bar> \<le> pow2 k"
proof (cases "x = 0")
  case True
  then show ?thesis using pow2_pos [of k] by (simp add: rd_def)
next
  case False
  define j where "j = max \<lfloor>log 2 \<bar>x\<bar>\<rfloor> (- 1022) - 52"
  have q: "quantum x = pow2 j" by (simp add: quantum_def j_def)
  have qpos: "0 < pow2 j" by (rule pow2_pos)
  have "log 2 \<bar>x\<bar> \<le> log 2 (pow2 k)" using assms(1) False by simp
  then have "log 2 \<bar>x\<bar> \<le> of_int k" by (simp add: pow2_powr)
  then have "\<lfloor>log 2 \<bar>x\<bar>\<rfloor> \<le> k" by (simp add: floor_le_iff)
  then have jk: "j \<le> k" using assms(2) by (simp add: j_def)
  define N :: int where "N = 2 ^ nat (k - j)"
  have "pow2 k = pow2 ((k - j) + j)" by simp
  also have "\<dots> = pow2 (k - j) * pow2 j" by (rule pow2_add)
  also have "pow2 (k - j) = of_int N" using jk by (simp add: pow2_def N_def)
  finally have N: "pow2 k = of_int N * pow2 j" .
  have "\<bar>x\<bar> / pow2 j \<le> of_int N"
    using assms(1) qpos by (simp add: N divide_le_eq)
  then have a: "\<bar>x / pow2 j\<bar> \<le> of_int N" using qpos by simp
  from a have "x / pow2 j \<le> of_int N" by linarith
  then have u: "round_even (x / pow2 j) \<le> N" by (rule round_even_le)
  from a have "- of_int N \<le> x / pow2 j" by linarith
  then have "of_int (- N) \<le> x / pow2 j" by simp
  then have l: "- N \<le> round_even (x / pow2 j)" by (rule round_even_ge)
  from u l have "\<bar>of_int (round_even (x / pow2 j)) :: real\<bar> \<le> of_int N"
    by (simp add: abs_le_iff)
  then have "\<bar>of_int (round_even (x / pow2 j))\<bar> * pow2 j \<le> of_int N * pow2 j"
    using qpos by (simp add: mult_right_mono)
  moreover have "\<bar>rd x\<bar> = \<bar>of_int (round_even (x / pow2 j))\<bar> * pow2 j"
    using False qpos by (simp add: rd_def q abs_mult)
  ultimately show ?thesis by (simp add: N)
qed




lemma pow2_sqrt: "sqrt (pow2 (2 * k)) = pow2 k"
proof -
  have "pow2 (2 * k) = pow2 k * pow2 k" using pow2_add [of k k] by simp
  then show ?thesis using pow2_pos [of k] by simp
qed

lemma fsqrt_bound:
  assumes "\<bar>a\<bar> \<le> pow2 (2 * k)" and "- 1022 \<le> k"
  shows "\<bar>fsqrt a\<bar> \<le> pow2 k"
proof -
  have "sqrt \<bar>a\<bar> \<le> sqrt (pow2 (2 * k))" using assms(1) by simp
  moreover have "\<bar>sqrt a\<bar> = sqrt \<bar>a\<bar>"
    by (cases "0 \<le> a") (simp_all add: real_sqrt_minus [symmetric])
  ultimately have "\<bar>sqrt a\<bar> \<le> pow2 k" by (simp only: pow2_sqrt)
  then show ?thesis unfolding fsqrt_def using assms(2) by (intro rd_bound) simp_all
qed

lemma tri_positions: "read_positions ex_py tri_vb = Some [(0, 0, 0), (1, 0, 0), (0, 1, 0)]"
  by (simp add: read_positions_def read_position_def tri_vb_def vtx_def xyz_def el_def
        elem_findall_def elem_find_def read_xyz_def float_attr_def elem_get_def ex_py_simps)

lemma tri_face_normal: "calculate_face_normal (0, 0, 0) (1, 0, 0) (0, 1, 0) = (0, 0, 1)"
  by (simp add: calculate_face_normal_def normalize_def cross_def v_sub_def vlength_def
        float_simps threshold_less_1)

lemma tri_accumulate:
  "accumulate ex_py [(0, 0, 0), (1, 0, 0), (0, 1, 0)] (elem_findall tri_faces ''face'') =
     Some \<lparr>vertex_normals = [(0, 0, 1), (0, 0, 1), (0, 0, 1)],
           vertex_face_count = [Suc 0, Suc 0, Suc 0], face_count = Suc 0\<rparr>"
  by (simp add: accumulate_def accumulate_face_def face_indices_def int_attr0_def tri_faces_def
        face3_def el_def elem_findall_def elem_get_def ex_py_simps py_index_def accum_init_def
        tri_face_normal add_normal_def add_count_def v_add_def float_simps numeral_3_eq_3 Let_def)

lemma final_unit_z: "final_normal (0, 0, 1) 1 = (0, 0, 1)" "final_normal (0, 0, 1) (Suc 0) = (0, 0, 1)"
  by (simp_all add: final_normal_def normalize_def v_mul_def vlength_def float_simps
        threshold_less_1)

lemma tri_write:
  "write_normals ex_py \<lparr>vertex_normals = [(0, 0, 1), (0, 0, 1), (0, 0, 1)],
           vertex_face_count = [Suc 0, Suc 0, Suc 0], face_count = Suc 0\<rparr> tri_vb = (tri_vb_out, 3)"
  by (simp add: write_normals_def write_vertex_def put_normal_def find_index_def final_unit_z
        xyz_strings_def ex_py_def tri_vb_def tri_vb_out_def vtx_def xyz_def el_def set_xyz_def
        new_normal_def unit_z_def)

lemmas tree_defs = tri_mesh_def tri_mesh_out_def tri_submesh_def tri_vb_def tri_vb_out_def tri_faces_def vtx_def xyz_def
  face3_def el_def new_normal_def set_xyz_def unit_z_def

lemma tri_paths:
  "findall_desc tri_mesh ''submesh'' = [[0, 0]]"
  "get_at [0, 0] tri_mesh = Some tri_submesh"
  "find_desc tri_submesh ''geometry'' = Some [Suc 0]"
  "find_desc tri_submesh ''faces'' = Some [0]"
  "get_at [0] tri_submesh = Some tri_faces"
  "get_at [0, 0, Suc 0] tri_mesh = Some (el ''geometry'' [(''vertexcount'', ''3'')] [tri_vb])"
  "find_desc (el ''geometry'' [(''vertexcount'', ''3'')] [tri_vb]) ''vertexbuffer'' = Some [0]"
  "get_at [0, 0, Suc 0, 0] tri_mesh = Some tri_vb"
  "upd_at (\<lambda>_. tri_vb_out) [0, 0, Suc 0, 0] tri_mesh = tri_mesh_out"
  by (simp_all add: findall_desc_def find_desc_def tree_defs)

lemma tri_recalc: "recalculate_normals ex_py tri_mesh = Some (tri_mesh_out, 3)"
proof -
  have u: "elem_get_default tri_submesh ''usesharedvertices'' ''false'' = ''false''"
    by (simp add: tri_submesh_def elem_get_default_def elem_get_def el_def)
  have n: "elem_get tri_vb ''normals'' = Some ''true''"
    by (simp add: tri_vb_def elem_get_def el_def)
  show ?thesis
    by (simp add: recalculate_normals_def process_submesh_def vertex_buffer_path_def
          geometry_path_def submesh_faces_elem_def recompute_vb_def tri_paths u n is_true_simps
          tri_positions tri_accumulate tri_write del: get_at.simps upd_at.simps)
qed

lemma kids_Elem_upd [simp]:
  "kids (Elem (tag e) (attrib e) (etext e) (etail e) ks) = ks"
  by simp

lemma get_at_upd_at_same: "get_at p (upd_at f p e) = map_option f (get_at p e)"
  by (induction p arbitrary: e) auto

lemma get_at_upd_at_diverge: "diverge p q \<Longrightarrow> get_at q (upd_at f p e) = get_at q e"
proof (induction p q arbitrary: e rule: diverge.induct)
  case (1 i p j q)
  then show ?case by (cases "i = j") auto
qed simp_all

lemma upd_at_same_elem: "get_at p e = Some x \<Longrightarrow> upd_at (\<lambda>_. x) p e = e"
proof (induction p arbitrary: e)
  case Nil
  then show ?case by simp
next
  case (Cons i p)
  then show ?case by (cases e) (auto split: if_splits simp: list_update_same_conv)
qed

lemma process_submesh_cases:
  assumes "vertex_buffer_path r sp = Some vbp" and "get_at vbp r = Some vb"
    and "process_submesh py sp r = Some (r', n)"
  shows "(recompute_vb py vb (submesh_faces_elem r sp) = Some None \<and> r' = r \<and> n = 0) \<or>
         (\<exists>vb'. recompute_vb py vb (submesh_faces_elem r sp) = Some (Some (vb', n)) \<and>
                r' = upd_at (\<lambda>_. vb') vbp r)"
  using assms by (auto simp: process_submesh_def split: option.splits)

lemma process_submesh_get_vb:
  assumes "vertex_buffer_path r sp = Some vbp" and "get_at vbp r = Some vb"
    and "process_submesh py sp r = Some (r', n)"
  shows "(get_at vbp r', n) =
           (case recompute_vb py vb (submesh_faces_elem r sp) of
              Some (Some (vb', u)) \<Rightarrow> (Some vb', u) | _ \<Rightarrow> (Some vb, 0))"
  using process_submesh_cases [OF assms] assms(2)
  by (auto simp: get_at_upd_at_same)

text \<open>
  Claim C10.  The round for one submesh works on the vertex buffer at \<open>vbp\<close>, the first
  \<^verbatim>\<open>vertexbuffer\<close> descendant, in document order, of the geometry the submesh resolves to.
  If that buffer's \<^verbatim>\<open>normals\<close> attribute is not \<^verbatim>\<open>true\<close> the submesh is skipped and the tree
  stays as it is.  Every element on a path that parts from \<open>vbp\<close>, so every other vertex
  buffer, is the same after the round.  The rewritten buffer and the count depend on the
  first buffer and the faces only: another tree with the same first buffer and faces
  gives the same result, whatever its other buffers hold.
\<close>

theorem only_first_vertex_buffer:
  assumes "vertex_buffer_path r sp = Some vbp" and "get_at vbp r = Some vb"
    and "process_submesh py sp r = Some (r', n)"
  shows "(\<exists>sm gp g vp rest.
            get_at sp r = Some sm \<and> geometry_path r sp sm = Some gp \<and> get_at gp r = Some g \<and>
            findall_desc g ''vertexbuffer'' = vp # rest \<and> vbp = gp @ vp) \<and>
         (elem_get vb ''normals'' \<noteq> Some ''true'' \<longrightarrow> r' = r \<and> n = 0) \<and>
         (\<forall>q. diverge vbp q \<longrightarrow> get_at q r' = get_at q r) \<and>
         (\<forall>r2 sp2 vbp2 r2' n2.
            vertex_buffer_path r2 sp2 = Some vbp2 \<and> get_at vbp2 r2 = Some vb \<and>
            submesh_faces_elem r2 sp2 = submesh_faces_elem r sp \<and>
            process_submesh py sp2 r2 = Some (r2', n2) \<longrightarrow>
              get_at vbp2 r2' = get_at vbp r' \<and> n2 = n)"
proof -
  note cs = process_submesh_cases [OF assms]
  have a: "r' = r \<and> n = 0" if "elem_get vb ''normals'' \<noteq> Some ''true''"
  proof -
    have "recompute_vb py vb (submesh_faces_elem r sp) = Some None"
      using that by (simp add: recompute_vb_def)
    with cs show ?thesis by auto
  qed
  have b: "get_at q r' = get_at q r" if "diverge vbp q" for q
    using cs that by (auto simp: get_at_upd_at_diverge)
  have c: "get_at vbp2 r2' = get_at vbp r' \<and> n2 = n"
    if h: "vertex_buffer_path r2 sp2 = Some vbp2 \<and> get_at vbp2 r2 = Some vb \<and>
            submesh_faces_elem r2 sp2 = submesh_faces_elem r sp \<and>
            process_submesh py sp2 r2 = Some (r2', n2)" for r2 sp2 vbp2 r2' n2
  proof -
    from h have h1: "vertex_buffer_path r2 sp2 = Some vbp2" and h2: "get_at vbp2 r2 = Some vb"
      and h3: "submesh_faces_elem r2 sp2 = submesh_faces_elem r sp"
      and h4: "process_submesh py sp2 r2 = Some (r2', n2)" by simp_all
    from process_submesh_get_vb [OF h1 h2 h4] process_submesh_get_vb [OF assms] h3
    have "(get_at vbp2 r2', n2) = (get_at vbp r', n)" by simp
    then show ?thesis by simp
  qed
  have d: "\<exists>sm gp g vp rest.
            get_at sp r = Some sm \<and> geometry_path r sp sm = Some gp \<and> get_at gp r = Some g \<and>
            findall_desc g ''vertexbuffer'' = vp # rest \<and> vbp = gp @ vp"
  proof -
    from assms(1) obtain sm gp g vp where
      p: "get_at sp r = Some sm" "geometry_path r sp sm = Some gp" "get_at gp r = Some g"
         "find_desc g ''vertexbuffer'' = Some vp" "vbp = gp @ vp"
      by (auto simp: vertex_buffer_path_def bind_eq_Some_conv)
    from p(4) obtain rest where "findall_desc g ''vertexbuffer'' = vp # rest"
      by (cases "findall_desc g ''vertexbuffer''") (auto simp: find_desc_def)
    with p show ?thesis by blast
  qed
  from a b c d show ?thesis by blast
qed

lemma frame_iff:
  "frame pv e e' \<longleftrightarrow>
     tag e' = tag e \<and> etext e' = etext e \<and> etail e' = etail e \<and>
     (if pv \<and> tag e = ''normal'' then other_attrs (attrib e') = other_attrs (attrib e)
      else attrib e' = attrib e) \<and>
     length (kids e) \<le> length (kids e') \<and>
     (\<forall>i<length (kids e). frame (tag e = ''vertex'') (kids e ! i) (kids e' ! i)) \<and>
     (length (kids e) < length (kids e') \<longrightarrow>
        tag e = ''vertex'' \<and> (\<forall>k \<in> set (kids e). tag k \<noteq> ''normal'') \<and>
        length (kids e') = Suc (length (kids e)) \<and> fresh_normal (kids e' ! length (kids e)))"
  by (cases e; cases e') (simp add: frame.simps)

lemma frame_tag: "frame pv e e' \<Longrightarrow> tag e' = tag e"
  by (subst (asm) frame_iff) simp

lemma frame_refl: "frame pv e e"
proof (induction e arbitrary: pv)
  case (Elem t a xt xl ks)
  have "\<forall>i<length ks. frame (t = ''vertex'') (ks ! i) (ks ! i)"
    using Elem.IH by simp
  then show ?case by (subst frame_iff) simp
qed

lemma fresh_frame:
  assumes "fresh_normal k" and "frame pv k k'"
  shows "fresh_normal k'"
proof -
  from assms(2) have f: "tag k' = tag k" "etext k' = etext k" "etail k' = etail k"
    "if pv \<and> tag k = ''normal'' then other_attrs (attrib k') = other_attrs (attrib k)
      else attrib k' = attrib k"
    "length (kids k) \<le> length (kids k')"
    "length (kids k) < length (kids k') \<longrightarrow> tag k = ''vertex''"
    by (subst (asm) frame_iff, simp)+
  from f(4) have "other_attrs (attrib k') = other_attrs (attrib k)"
    by (simp split: if_splits)
  moreover from f(6) assms(1) have "kids k' = []"
    by (auto simp: fresh_normal_def)
  ultimately show ?thesis using assms(1) f(1-3) by (simp add: fresh_normal_def)
qed

lemma frame_trans: "frame pv a b \<Longrightarrow> frame pv b c \<Longrightarrow> frame pv a c"
proof (induction a arbitrary: pv b c)
  case (Elem t al xt xl ks)
  let ?a = "Elem t al xt xl ks"
  note ab = Elem.prems(1) [unfolded frame_iff [of pv ?a b], simplified]
  note bc = Elem.prems(2) [unfolded frame_iff [of pv b c]]
  have tb: "tag b = t" using ab by simp
  have kab: "\<And>i. i < length ks \<Longrightarrow> frame (t = ''vertex'') (ks ! i) (kids b ! i)"
    using ab by simp
  have kbc: "\<And>i. i < length (kids b) \<Longrightarrow> frame (t = ''vertex'') (kids b ! i) (kids c ! i)"
    using bc tb by simp
  have len: "length ks \<le> length (kids b)" "length (kids b) \<le> length (kids c)"
    using ab bc by simp_all
  have kac: "\<forall>i<length ks. frame (t = ''vertex'') (ks ! i) (kids c ! i)"
  proof (intro allI impI)
    fix i assume i: "i < length ks"
    then have "ks ! i \<in> set ks" by simp
    moreover have "frame (t = ''vertex'') (ks ! i) (kids b ! i)" using kab i .
    moreover have "frame (t = ''vertex'') (kids b ! i) (kids c ! i)" using kbc i len(1) by simp
    ultimately show "frame (t = ''vertex'') (ks ! i) (kids c ! i)" by (rule Elem.IH)
  qed
  have ext: "t = ''vertex'' \<and> (\<forall>k \<in> set ks. tag k \<noteq> ''normal'') \<and>
        length (kids c) = Suc (length ks) \<and> fresh_normal (kids c ! length ks)"
    if lt: "length ks < length (kids c)"
  proof (cases "length ks < length (kids b)")
    case True
    with ab have e: "t = ''vertex''" "\<forall>k \<in> set ks. tag k \<noteq> ''normal''"
      "length (kids b) = Suc (length ks)" "fresh_normal (kids b ! length ks)" by simp_all
    have "kids b ! length ks \<in> set (kids b)" using e(3) by simp
    moreover have "tag (kids b ! length ks) = ''normal''" using e(4) by (simp add: fresh_normal_def)
    ultimately have "\<not> (\<forall>k \<in> set (kids b). tag k \<noteq> ''normal'')" by blast
    with bc have "\<not> length (kids b) < length (kids c)" by blast
    with len(2) have eq: "length (kids c) = length (kids b)" by simp
    have "frame (t = ''vertex'') (kids b ! length ks) (kids c ! length ks)"
      using kbc [of "length ks"] e(3) by simp
    with e(4) have "fresh_normal (kids c ! length ks)" by (rule fresh_frame)
    with e eq show ?thesis by simp
  next
    case False
    with len(1) have eq: "length (kids b) = length ks" by simp
    with lt have "length (kids b) < length (kids c)" by simp
    with bc tb have e: "t = ''vertex''" "\<forall>k \<in> set (kids b). tag k \<noteq> ''normal''"
      "length (kids c) = Suc (length (kids b))" "fresh_normal (kids c ! length (kids b))"
      by simp_all
    have "\<forall>k \<in> set ks. tag k \<noteq> ''normal''"
    proof
      fix k assume "k \<in> set ks"
      then obtain i where i: "i < length ks" "ks ! i = k" by (auto simp: in_set_conv_nth)
      from kab [OF i(1)] have "tag (kids b ! i) = tag k" using i(2) by (simp add: frame_tag)
      moreover have "kids b ! i \<in> set (kids b)" using i(1) eq by simp
      ultimately show "tag k \<noteq> ''normal''" using e(2) by metis
    qed
    with e eq show ?thesis by simp
  qed
  have attrs: "if pv \<and> t = ''normal'' then other_attrs (attrib c) = other_attrs al
      else attrib c = al"
    using ab bc tb by (simp split: if_splits)
  have hd: "tag c = t" "etext c = xt" "etail c = xl"
    using ab bc by simp_all
  show ?case
    apply (subst frame_iff)
    using hd attrs len kac ext by simp
qed

lemma other_attrs_attr_set:
  "k = ''x'' \<or> k = ''y'' \<or> k = ''z'' \<Longrightarrow> other_attrs (attr_set k v al) = other_attrs al"
  by (induction al) (auto simp: other_attrs_def)

lemma frame_set_xyz:
  assumes "tag n = ''normal''"
  shows "frame True n (set_xyz s n)"
proof -
  obtain sx sy sz where s: "s = (sx, sy, sz)" by (cases s)
  have "\<forall>i<length (kids n). frame (tag n = ''vertex'') (kids n ! i) (kids n ! i)"
    by (simp add: frame_refl)
  then show ?thesis
    by (subst frame_iff) (simp add: set_xyz_def s assms other_attrs_attr_set)
qed

lemma find_index_Some:
  "find_index e t = Some j \<Longrightarrow> j < length (kids e) \<and> tag (kids e ! j) = t"
  by (auto simp: find_index_def find_Some_iff)

lemma find_index_None: "find_index e t = None \<Longrightarrow> \<forall>k \<in> set (kids e). tag k \<noteq> t"
  by (auto simp: find_index_def find_None_iff in_set_conv_nth)

lemma fresh_new_normal: "fresh_normal (new_normal s)"
  by (cases s) (simp add: fresh_normal_def new_normal_def set_xyz_def other_attrs_def)

lemma frame_put_normal:
  assumes "tag v = ''vertex''"
  shows "frame pv v (put_normal s c v)"
proof (cases "find_index v ''normal''")
  case None
  show ?thesis
  proof (cases c)
    case True
    have "\<forall>i<length (kids v). frame (tag v = ''vertex'') (kids v ! i) ((kids v @ [new_normal s]) ! i)"
      by (simp add: nth_append frame_refl)
    then show ?thesis
      using None True assms find_index_None [OF None]
      by (subst frame_iff) (simp add: put_normal_def fresh_new_normal)
  next
    case False
    with None show ?thesis by (simp add: put_normal_def frame_refl)
  qed
next
  case (Some j)
  from find_index_Some [OF Some] have j: "j < length (kids v)" "tag (kids v ! j) = ''normal''"
    by simp_all
  have "\<forall>i<length (kids v).
          frame (tag v = ''vertex'') (kids v ! i) ((kids v)[j := set_xyz s (kids v ! j)] ! i)"
  proof (intro allI impI)
    fix i assume "i < length (kids v)"
    then show "frame (tag v = ''vertex'') (kids v ! i) ((kids v)[j := set_xyz s (kids v ! j)] ! i)"
      using j assms by (cases "i = j") (simp_all add: frame_set_xyz frame_refl)
  qed
  then show ?thesis
    using Some by (subst frame_iff) (simp add: put_normal_def)
qed

lemma frame_write_vertex: "tag v = ''vertex'' \<Longrightarrow> frame pv v (fst (write_vertex py vn cnt v))"
  by (simp add: write_vertex_def frame_put_normal)

lemma write_kids_frame:
  "length (fst (write_kids py vns cnts i ks)) = length ks \<and>
   (\<forall>j<length ks. frame pv (ks ! j) (fst (write_kids py vns cnts i ks) ! j))"
proof (induction ks arbitrary: i)
  case Nil
  then show ?case by simp
next
  case (Cons k ks)
  show ?case
  proof (cases "tag k = ''vertex''")
    case True
    obtain k' u where w: "write_vertex py (vns ! i) (cnts ! i) k = (k', u)" by (cases "write_vertex py (vns ! i) (cnts ! i) k")
    obtain ks' us where r: "write_kids py vns cnts (Suc i) ks = (ks', us)" by (cases "write_kids py vns cnts (Suc i) ks")
    have fk: "frame pv k k'" using frame_write_vertex [OF True, of pv py "vns ! i" "cnts ! i"] w by simp
    from Cons.IH [of "Suc i"] r have ih: "length ks' = length ks" "\<forall>j<length ks. frame pv (ks ! j) (ks' ! j)"
      by simp_all
    have "\<forall>j<length (k # ks). frame pv ((k # ks) ! j) ((k' # ks') ! j)"
    proof (intro allI impI)
      fix j assume "j < length (k # ks)"
      then show "frame pv ((k # ks) ! j) ((k' # ks') ! j)"
        using fk ih by (cases j) simp_all
    qed
    with True w r ih show ?thesis by simp
  next
    case False
    obtain ks' us where r: "write_kids py vns cnts i ks = (ks', us)" by (cases "write_kids py vns cnts i ks")
    from Cons.IH [of i] r have ih: "length ks' = length ks" "\<forall>j<length ks. frame pv (ks ! j) (ks' ! j)"
      by simp_all
    have "\<forall>j<length (k # ks). frame pv ((k # ks) ! j) ((k # ks') ! j)"
    proof (intro allI impI)
      fix j assume "j < length (k # ks)"
      then show "frame pv ((k # ks) ! j) ((k # ks') ! j)"
        using ih by (cases j) (simp_all add: frame_refl)
    qed
    with False r ih show ?thesis by simp
  qed
qed

lemma frame_write_normals: "frame pv vb (fst (write_normals py ac vb))"
proof -
  obtain ks' u where w: "write_kids py (vertex_normals ac) (vertex_face_count ac) 0 (kids vb) = (ks', u)"
    by (cases "write_kids py (vertex_normals ac) (vertex_face_count ac) 0 (kids vb)")
  from write_kids_frame [of py "vertex_normals ac" "vertex_face_count ac" 0 "kids vb" "tag vb = ''vertex''"] w
  have "length ks' = length (kids vb)" "\<forall>j<length (kids vb). frame (tag vb = ''vertex'') (kids vb ! j) (ks' ! j)"
    by simp_all
  then show ?thesis
    by (subst frame_iff) (simp add: write_normals_def w)
qed

lemma frame_upd_at:
  assumes "\<And>pv. frame pv x x'"
  shows "get_at p e = Some x \<Longrightarrow> frame pv e (upd_at (\<lambda>_. x') p e)"
proof (induction p arbitrary: e pv)
  case Nil
  then show ?case using assms by simp
next
  case (Cons i p)
  then have i: "i < length (kids e)" and g: "get_at p (kids e ! i) = Some x"
    by (simp_all split: if_splits)
  have "\<forall>j<length (kids e).
          frame (tag e = ''vertex'') (kids e ! j) ((kids e)[i := upd_at (\<lambda>_. x') p (kids e ! i)] ! j)"
  proof (intro allI impI)
    fix j assume "j < length (kids e)"
    then show "frame (tag e = ''vertex'') (kids e ! j) ((kids e)[i := upd_at (\<lambda>_. x') p (kids e ! i)] ! j)"
      using Cons.IH [OF g] by (cases "j = i") (simp_all add: frame_refl)
  qed
  then show ?case using i by (subst frame_iff) simp
qed

lemma recompute_vb_frame:
  "recompute_vb py vb fe = Some (Some (vb', n)) \<Longrightarrow> frame pv vb vb'"
  using frame_write_normals [of pv vb py]
  by (auto simp: recompute_vb_def split: if_splits option.splits) (metis fst_conv)

lemma frame_process_submesh:
  assumes "process_submesh py sp r = Some (r', n)"
  shows "frame pv r r'"
proof (cases "vertex_buffer_path r sp")
  case None
  with assms show ?thesis by (simp add: process_submesh_def frame_refl)
next
  case (Some vbp)
  show ?thesis
  proof (cases "get_at vbp r")
    case None
    with Some assms show ?thesis by (simp add: process_submesh_def frame_refl)
  next
    case (Some vb)
    from process_submesh_cases [OF \<open>vertex_buffer_path r sp = Some vbp\<close> Some assms]
    show ?thesis
    proof
      assume "recompute_vb py vb (submesh_faces_elem r sp) = Some None \<and> r' = r \<and> n = 0"
      then show ?thesis by (simp add: frame_refl)
    next
      assume "\<exists>vb'. recompute_vb py vb (submesh_faces_elem r sp) = Some (Some (vb', n)) \<and>
                r' = upd_at (\<lambda>_. vb') vbp r"
      then obtain vb' where v: "recompute_vb py vb (submesh_faces_elem r sp) = Some (Some (vb', n))"
        and r': "r' = upd_at (\<lambda>_. vb') vbp r" by blast
      have "\<And>pv. frame pv vb vb'" using v by (rule recompute_vb_frame)
      then show ?thesis unfolding r' using Some by (rule frame_upd_at)
    qed
  qed
qed

lemma frame_process_submeshes:
  "process_submeshes py sps st = Some st' \<Longrightarrow> frame pv (fst st) (fst st')"
proof (induction sps arbitrary: st)
  case Nil
  then show ?case by (simp add: frame_refl)
next
  case (Cons sp sps)
  then obtain r1 u where a: "process_submesh py sp (fst st) = Some (r1, u)"
    and b: "process_submeshes py sps (r1, snd st + u) = Some st'"
    by (auto split: option.splits)
  from frame_process_submesh [OF a] Cons.IH [OF b] show ?case
    by (auto intro: frame_trans)
qed

text \<open>
  Claim C9.  When the pass returns a tree, that tree is the old one up to \<open>frame\<close>: every
  element keeps its tag, text, tail and attributes, except that a \<^verbatim>\<open>normal\<close> child of a
  \<^verbatim>\<open>vertex\<close> may change the attributes x, y and z; every element keeps its children in
  place, except that a \<^verbatim>\<open>vertex\<close> without a \<^verbatim>\<open>normal\<close> child may get one new last child,
  a \<^verbatim>\<open>normal\<close> element with the attributes x, y, z only.
\<close>

theorem only_normal_fields_change:
  assumes "recalculate_normals py r = Some (r', n)"
  shows "frame False r r'"
  using frame_process_submeshes [of py "findall_desc r ''submesh''" "(r, 0)" "(r', n)" False] assms
  by (simp add: recalculate_normals_def)













lemmas ex_tree_defs = std_mesh_def neg_mesh_def neg_faces_def gap_vb_def gap_vb_out_def gap_mesh_def
  gap_mesh_out_def two_vb_first_def two_vb_second_def two_vb_mesh_def tri_vb_def tri_faces_def
  vtx_def xyz_def face3_def el_def

lemma std_submesh:
  "elem_get_default (el ''submesh'' [(''usesharedvertices'', ''false'')] ks) ''usesharedvertices'' ''false'' = ''false''"
  by (simp add: elem_get_default_def elem_get_def el_def)

lemma neg_paths:
  "findall_desc neg_mesh ''submesh'' = [[0, 0]]"
  "get_at [0, 0] neg_mesh = Some (el ''submesh'' [(''usesharedvertices'', ''false'')] [neg_faces, el ''geometry'' [] [tri_vb]])"
  "find_desc (el ''submesh'' [(''usesharedvertices'', ''false'')] [neg_faces, el ''geometry'' [] [tri_vb]]) ''geometry'' = Some [Suc 0]"
  "find_desc (el ''submesh'' [(''usesharedvertices'', ''false'')] [neg_faces, el ''geometry'' [] [tri_vb]]) ''faces'' = Some [0]"
  "get_at [0] (el ''submesh'' [(''usesharedvertices'', ''false'')] [neg_faces, el ''geometry'' [] [tri_vb]]) = Some neg_faces"
  "get_at [0, 0, Suc 0] neg_mesh = Some (el ''geometry'' [] [tri_vb])"
  "find_desc (el ''geometry'' [] [tri_vb]) ''vertexbuffer'' = Some [0]"
  "get_at [0, 0, Suc 0, 0] neg_mesh = Some tri_vb"
  by (simp_all add: findall_desc_def find_desc_def ex_tree_defs)

lemma ex_py_neg: "py_int ex_py ''-4'' = Some (- 4)" "py_int ex_py ''-1'' = Some (- 1)"
  by (simp_all add: ex_py_def dec_int_def digit_val_def)

lemma face3_indices: "face_indices ex_py (face3 a b c) = do { x \<leftarrow> py_int ex_py a; y \<leftarrow> py_int ex_py b; z \<leftarrow> py_int ex_py c; Some (x, y, z) }"
  by (simp add: face_indices_def int_attr0_def face3_def el_def elem_get_def)

lemma neg_accumulate:
  "accumulate ex_py [(0, 0, 0), (1, 0, 0), (0, 1, 0)] [face3 ''-4'' ''0'' ''1'', face3 ''0'' ''1'' ''2''] = None"
  by (simp add: accumulate_def accumulate_face_def face3_indices ex_py_simps ex_py_neg py_index_def)

lemma wrap_accumulate:
  "accumulate ex_py [(0, 0, 0), (1, 0, 0), (0, 1, 0)] [face3 ''-1'' ''0'' ''1''] =
     Some \<lparr>vertex_normals = [(0, 0, 1), (0, 0, 1), (0, 0, 1)],
           vertex_face_count = [1, 1, 1], face_count = 1\<rparr>"
  by (simp add: accumulate_def accumulate_face_def face3_indices ex_py_simps ex_py_neg py_index_def
        accum_init_def calculate_face_normal_def normalize_def cross_def v_sub_def vlength_def
        add_normal_def add_count_def v_add_def float_simps threshold_less_1 numeral_3_eq_3
        Let_def)

lemma neg_recalc: "recalculate_normals ex_py neg_mesh = None"
proof -
  have n: "elem_get tri_vb ''normals'' = Some ''true''"
    by (simp add: tri_vb_def elem_get_def el_def)
  have f: "elem_findall neg_faces ''face'' = [face3 ''-4'' ''0'' ''1'', face3 ''0'' ''1'' ''2'']"
    by (simp add: neg_faces_def elem_findall_def el_def face3_def)
  show ?thesis
    by (simp add: recalculate_normals_def process_submesh_def vertex_buffer_path_def
          geometry_path_def submesh_faces_elem_def recompute_vb_def neg_paths std_submesh n f
          is_true_simps tri_positions neg_accumulate del: get_at.simps upd_at.simps)
qed

text \<open>
  Claim C7, the code at an index below 0.  With three vertices, the face (-1, 0, 1) is
  not skipped: it is counted and adds its normal to vertices 2, 0 and 1.  The face
  (-4, 0, 1) raises an \<^verbatim>\<open>IndexError\<close> that ends the whole pass, so the valid face after it
  is never processed and nothing is written.
\<close>

theorem negative_face_index_not_skipped:
  "accumulate ex_py [(0, 0, 0), (1, 0, 0), (0, 1, 0)] [face3 ''-1'' ''0'' ''1''] =
     Some \<lparr>vertex_normals = [(0, 0, 1), (0, 0, 1), (0, 0, 1)],
           vertex_face_count = [1, 1, 1], face_count = 1\<rparr> \<and>
   accumulate ex_py [(0, 0, 0), (1, 0, 0), (0, 1, 0)]
     [face3 ''-4'' ''0'' ''1'', face3 ''0'' ''1'' ''2''] = None \<and>
   recalculate_normals ex_py neg_mesh = None"
  using wrap_accumulate neg_accumulate neg_recalc by simp

lemma gap_paths:
  "findall_desc gap_mesh ''submesh'' = [[0, 0]]"
  "get_at [0, 0] gap_mesh = Some (el ''submesh'' [(''usesharedvertices'', ''false'')] [tri_faces, el ''geometry'' [] [gap_vb]])"
  "find_desc (el ''submesh'' [(''usesharedvertices'', ''false'')] [tri_faces, el ''geometry'' [] [gap_vb]]) ''geometry'' = Some [Suc 0]"
  "find_desc (el ''submesh'' [(''usesharedvertices'', ''false'')] [tri_faces, el ''geometry'' [] [gap_vb]]) ''faces'' = Some [0]"
  "get_at [0] (el ''submesh'' [(''usesharedvertices'', ''false'')] [tri_faces, el ''geometry'' [] [gap_vb]]) = Some tri_faces"
  "get_at [0, 0, Suc 0] gap_mesh = Some (el ''geometry'' [] [gap_vb])"
  "find_desc (el ''geometry'' [] [gap_vb]) ''vertexbuffer'' = Some [0]"
  "get_at [0, 0, Suc 0, 0] gap_mesh = Some gap_vb"
  "upd_at (\<lambda>_. gap_vb_out) [0, 0, Suc 0, 0] gap_mesh = gap_mesh_out"
  by (simp_all add: findall_desc_def find_desc_def ex_tree_defs)

lemma gap_positions:
  "read_positions ex_py gap_vb = Some [(0, 0, 0), (1, 0, 0), (0, 1, 0), (1, 1, 0), (1, 1, 1)]"
  by (simp add: read_positions_def read_position_def gap_vb_def vtx_def xyz_def el_def
        elem_findall_def elem_find_def read_xyz_def float_attr_def elem_get_def ex_py_simps)

lemma tri_faces_list: "elem_findall tri_faces ''face'' = [face3 ''0'' ''1'' ''2'']"
  by (simp add: tri_faces_def elem_findall_def el_def face3_def)

lemma gap_accumulate:
  "accumulate ex_py [(0, 0, 0), (1, 0, 0), (0, 1, 0), (1, 1, 0), (1, 1, 1)] (elem_findall tri_faces ''face'') =
     Some \<lparr>vertex_normals = [(0, 0, 1), (0, 0, 1), (0, 0, 1), (0, 0, 0), (0, 0, 0)],
           vertex_face_count = [Suc 0, Suc 0, Suc 0, 0, 0], face_count = Suc 0\<rparr>"
  by (simp add: accumulate_def accumulate_face_def face3_indices tri_faces_list
        ex_py_simps py_index_def accum_init_def
        tri_face_normal add_normal_def add_count_def v_add_def float_simps eval_nat_numeral
        Let_def)

lemma gap_write:
  "write_normals ex_py \<lparr>vertex_normals = [(0, 0, 1), (0, 0, 1), (0, 0, 1), (0, 0, 0), (0, 0, 0)],
           vertex_face_count = [Suc 0, Suc 0, Suc 0, 0, 0], face_count = Suc 0\<rparr> gap_vb = (gap_vb_out, 3)"
  by (simp add: write_normals_def write_vertex_def put_normal_def find_index_def final_unit_z
        xyz_strings_def ex_py_def gap_vb_def gap_vb_out_def vtx_def xyz_def el_def set_xyz_def
        new_normal_def)

lemma gap_recalc: "recalculate_normals ex_py gap_mesh = Some (gap_mesh_out, 3)"
proof -
  have n: "elem_get gap_vb ''normals'' = Some ''true''"
    by (simp add: gap_vb_def elem_get_def el_def)
  show ?thesis
    by (simp add: recalculate_normals_def process_submesh_def vertex_buffer_path_def
          geometry_path_def submesh_faces_elem_def recompute_vb_def gap_paths std_submesh n
          is_true_simps gap_positions gap_accumulate gap_write del: get_at.simps upd_at.simps)
qed

text \<open>
  Claim C8, the code at a vertex that no face touches and that has no normal field.  Of
  five vertices the face (0, 1, 2) touches the first three.  Vertex 4 has a normal field
  and gets (0,1,0); vertex 3 has none before the pass and none after it.
\<close>

theorem unreferenced_vertex_gets_no_normal:
  "recalculate_normals ex_py gap_mesh = Some (gap_mesh_out, 3) \<and>
   map (\<lambda>v. find_index v ''normal'') (elem_findall gap_vb ''vertex'') =
     [Some 1, Some 1, Some 1, None, Some 1] \<and>
   map (\<lambda>v. find_index v ''normal'') (elem_findall gap_vb_out ''vertex'') =
     [Some 1, Some 1, Some 1, None, Some 1] \<and>
   map (\<lambda>v. map_option attrib (elem_find v ''normal'')) (elem_findall gap_vb_out ''vertex'') =
     [Some [(''x'', ''0.000000''), (''y'', ''0.000000''), (''z'', ''1.000000'')],
      Some [(''x'', ''0.000000''), (''y'', ''0.000000''), (''z'', ''1.000000'')],
      Some [(''x'', ''0.000000''), (''y'', ''0.000000''), (''z'', ''1.000000'')],
      None,
      Some [(''x'', ''0.000000''), (''y'', ''1.000000''), (''z'', ''0.000000'')]]"
  using gap_recalc
  by (simp add: find_index_def elem_findall_def elem_find_def gap_vb_def gap_vb_out_def vtx_def
        xyz_def el_def)

lemma tri_recompute: "recompute_vb ex_py tri_vb (Some tri_faces) = Some (Some (tri_vb_out, 3))"
proof -
  have n: "elem_get tri_vb ''normals'' = Some ''true''"
    by (simp add: tri_vb_def elem_get_def el_def)
  show ?thesis
    by (simp add: recompute_vb_def n tri_positions tri_accumulate tri_write)
qed


text \<open>
  Claim C9, witness: the triangle mesh, where one normal field is created and two are
  rewritten; a changed position is not within \<open>frame\<close>.
\<close>

theorem only_normal_fields_change_witness:
  "recalculate_normals ex_py tri_mesh = Some (tri_mesh_out, 3) \<and> frame False tri_mesh tri_mesh_out \<and>
   tri_mesh_out \<noteq> tri_mesh \<and>
   \<not> frame False (vtx [xyz ''position'' ''0'' ''0'' ''0'']) (vtx [xyz ''position'' ''1'' ''0'' ''0''])"
proof -
  have a: "frame False tri_mesh tri_mesh_out"
    using only_normal_fields_change [OF tri_recalc] .
  have b: "tri_mesh_out \<noteq> tri_mesh"
    by (simp add: tree_defs)
  have c: "\<not> frame False (vtx [xyz ''position'' ''0'' ''0'' ''0'']) (vtx [xyz ''position'' ''1'' ''0'' ''0''])"
    by (simp add: vtx_def xyz_def el_def frame.simps)
  from a b c tri_recalc show ?thesis by simp
qed

lemma two_vb_paths:
  "get_at [0, 0] two_vb_mesh = Some (el ''submesh'' [(''usesharedvertices'', ''false'')] [tri_faces, el ''geometry'' [] [two_vb_first, two_vb_second]])"
  "find_desc (el ''submesh'' [(''usesharedvertices'', ''false'')] [tri_faces, el ''geometry'' [] [two_vb_first, two_vb_second]]) ''geometry'' = Some [Suc 0]"
  "get_at [0, 0, Suc 0] two_vb_mesh = Some (el ''geometry'' [] [two_vb_first, two_vb_second])"
  "find_desc (el ''geometry'' [] [two_vb_first, two_vb_second]) ''vertexbuffer'' = Some [0]"
  "get_at [0, 0, Suc 0, 0] two_vb_mesh = Some two_vb_first"
  "get_at [0, 0, Suc 0, Suc 0] two_vb_mesh = Some two_vb_second"
  by (simp_all add: findall_desc_def find_desc_def ex_tree_defs)

lemma two_vb_path: "vertex_buffer_path two_vb_mesh [0, 0] = Some [0, 0, Suc 0, 0]"
  by (simp add: vertex_buffer_path_def geometry_path_def two_vb_paths std_submesh is_true_simps
        del: get_at.simps)

lemma two_vb_flags:
  "elem_get two_vb_first ''normals'' = None" "elem_get two_vb_second ''normals'' = Some ''true''"
  by (simp_all add: two_vb_first_def two_vb_second_def elem_get_def el_def)

lemma two_vb_process: "process_submesh ex_py [0, 0] two_vb_mesh = Some (two_vb_mesh, 0)"
  by (simp add: process_submesh_def two_vb_path two_vb_paths recompute_vb_def two_vb_flags
        del: get_at.simps upd_at.simps)

text \<open>
  Claim C10, witness: the first buffer holds the positions and declares no normals, the
  second declares them; the submesh is skipped and the second buffer is untouched.
\<close>

theorem only_first_vertex_buffer_witness:
  "\<exists>r' n. process_submesh ex_py [0, 0] two_vb_mesh = Some (r', n) \<and>
      findall_desc (el ''geometry'' [] [two_vb_first, two_vb_second]) ''vertexbuffer'' = [[0], [Suc 0]] \<and>
      elem_get two_vb_first ''normals'' = None \<and>
      elem_get two_vb_second ''normals'' = Some ''true'' \<and>
      r' = two_vb_mesh \<and> n = 0 \<and> get_at [0, 0, Suc 0, Suc 0] r' = Some two_vb_second"
proof -
  obtain r' n where p: "process_submesh ex_py [0, 0] two_vb_mesh = Some (r', n)"
    using two_vb_process by simp
  note t = only_first_vertex_buffer [OF two_vb_path two_vb_paths(5) p]
  have f: "elem_get two_vb_first ''normals'' \<noteq> Some ''true''" by (simp add: two_vb_flags)
  from t f have a: "r' = two_vb_mesh \<and> n = 0" by blast
  have d: "diverge [0, 0, Suc 0, 0] [0, 0, Suc 0, Suc 0]" by simp
  from t d have "get_at [0, 0, Suc 0, Suc 0] r' = get_at [0, 0, Suc 0, Suc 0] two_vb_mesh"
    by blast
  then have b: "get_at [0, 0, Suc 0, Suc 0] r' = Some two_vb_second"
    by (simp only: two_vb_paths(6))
  have c: "findall_desc (el ''geometry'' [] [two_vb_first, two_vb_second]) ''vertexbuffer'' = [[0], [Suc 0]]"
    by (simp add: findall_desc_def ex_tree_defs)
  from p a b c two_vb_flags show ?thesis by blast
qed

lemma map_of_attr_set: "map_of (attr_set k v al) k' = (if k' = k then Some v else map_of al k')"
  by (induction al) auto

lemma elem_get_set_xyz:
  "elem_get (set_xyz (sx, sy, sz) n) ''x'' = Some sx"
  "elem_get (set_xyz (sx, sy, sz) n) ''y'' = Some sy"
  "elem_get (set_xyz (sx, sy, sz) n) ''z'' = Some sz"
  by (simp_all add: elem_get_def set_xyz_def map_of_attr_set)

lemma elem_find_put_existing:
  assumes "find_index v ''normal'' = Some j"
  shows "elem_find (put_normal s c v) ''normal'' = Some (set_xyz s (kids v ! j))"
proof -
  from assms have j: "j < length (kids v)" "tag (kids v ! j) = ''normal''"
    and first: "\<forall>i<j. tag (kids v ! i) \<noteq> ''normal''"
    by (auto simp: find_index_def find_Some_iff)
  have t: "tag (set_xyz s (kids v ! j)) = ''normal''"
    using j(2) by (cases s) (simp add: set_xyz_def)
  show ?thesis
    using assms j first t
    by (simp add: put_normal_def elem_find_def find_Some_iff)
       (rule exI [of _ j], simp)
qed

lemma elem_find_put_new:
  assumes "find_index v ''normal'' = None"
  shows "elem_find (put_normal s True v) ''normal'' = Some (new_normal s)"
proof -
  from find_index_None [OF assms] have none: "\<forall>k \<in> set (kids v). tag k \<noteq> ''normal''" .
  have t: "tag (new_normal s) = ''normal''"
    by (cases s) (simp add: new_normal_def set_xyz_def)
  show ?thesis
    using assms none t
    by (simp add: put_normal_def elem_find_def find_Some_iff)
       (rule exI [of _ "length (kids v)"], simp add: nth_append)
qed

lemma find_index_None_iff: "find_index v t = None \<longleftrightarrow> elem_find v t = None"
  by (auto simp: find_index_def elem_find_def find_None_iff in_set_conv_nth)

text \<open>
  Beyond the claims (X1): what the pass writes for one vertex record.  With a face count
  above 0 the record has a normal field afterwards, created if need be, that holds the
  formatted components of normalize(accumulator * (1.0 / count)), and the record counts
  as updated.  With face count 0 a record that has a normal field holds (0,1,0)
  afterwards and does not count; a record without a normal field stays as it is.
\<close>

theorem write_vertex_normal:
  "(0 < cnt \<longrightarrow>
      snd (write_vertex py vn cnt v) = 1 \<and>
      (\<exists>n. elem_find (fst (write_vertex py vn cnt v)) ''normal'' = Some n \<and>
           (case normalize (v_mul vn (fdiv 1 (rd (real cnt)))) of (x, y, z) \<Rightarrow>
              elem_get n ''x'' = Some (fmt6 py x) \<and> elem_get n ''y'' = Some (fmt6 py y) \<and>
              elem_get n ''z'' = Some (fmt6 py z)))) \<and>
   (cnt = 0 \<and> elem_find v ''normal'' \<noteq> None \<longrightarrow>
      snd (write_vertex py vn cnt v) = 0 \<and>
      (\<exists>n. elem_find (fst (write_vertex py vn cnt v)) ''normal'' = Some n \<and>
           elem_get n ''x'' = Some ''0.000000'' \<and> elem_get n ''y'' = Some ''1.000000'' \<and>
           elem_get n ''z'' = Some ''0.000000'')) \<and>
   (cnt = 0 \<and> elem_find v ''normal'' = None \<longrightarrow> write_vertex py vn cnt v = (v, 0))"
proof -
  have a: "snd (write_vertex py vn cnt v) = 1 \<and>
      (\<exists>n. elem_find (fst (write_vertex py vn cnt v)) ''normal'' = Some n \<and>
           (case normalize (v_mul vn (fdiv 1 (rd (real cnt)))) of (x, y, z) \<Rightarrow>
              elem_get n ''x'' = Some (fmt6 py x) \<and> elem_get n ''y'' = Some (fmt6 py y) \<and>
              elem_get n ''z'' = Some (fmt6 py z)))" if "0 < cnt"
  proof -
    obtain x y z where f: "normalize (v_mul vn (fdiv 1 (rd (real cnt)))) = (x, y, z)"
      by (cases "normalize (v_mul vn (fdiv 1 (rd (real cnt))))")
    let ?s = "(fmt6 py x, fmt6 py y, fmt6 py z)"
    have w: "write_vertex py vn cnt v = (put_normal ?s True v, 1)"
      using that f by (simp add: write_vertex_def final_normal_def xyz_strings_def)
    show ?thesis
    proof (cases "find_index v ''normal''")
      case None
      from elem_find_put_new [OF None, of ?s] w f show ?thesis
        by (simp add: new_normal_def elem_get_set_xyz)
    next
      case (Some j)
      from elem_find_put_existing [OF Some, of ?s True] w f show ?thesis
        by (simp add: elem_get_set_xyz)
    qed
  qed
  have b: "snd (write_vertex py vn cnt v) = 0 \<and>
      (\<exists>n. elem_find (fst (write_vertex py vn cnt v)) ''normal'' = Some n \<and>
           elem_get n ''x'' = Some ''0.000000'' \<and> elem_get n ''y'' = Some ''1.000000'' \<and>
           elem_get n ''z'' = Some ''0.000000'')" if "cnt = 0 \<and> elem_find v ''normal'' \<noteq> None"
  proof -
    from that obtain j where j: "find_index v ''normal'' = Some j"
      by (cases "find_index v ''normal''") (auto simp: find_index_None_iff)
    from elem_find_put_existing [OF j, of "(''0.000000'', ''1.000000'', ''0.000000'')" False] that
    show ?thesis by (simp add: write_vertex_def elem_get_set_xyz)
  qed
  have c: "write_vertex py vn cnt v = (v, 0)" if "cnt = 0 \<and> elem_find v ''normal'' = None"
    using that by (simp add: write_vertex_def put_normal_def find_index_None_iff [symmetric])
  from a b c show ?thesis by blast
qed

text \<open>
  X1, witness: one record of each of the three kinds.
\<close>

theorem write_vertex_normal_witness:
  "write_vertex ex_py (0, 0, 2) 2 (vtx [xyz ''position'' ''1'' ''0'' ''0'']) =
     (vtx [xyz ''position'' ''1'' ''0'' ''0'', xyz ''normal'' ''0.000000'' ''0.000000'' ''1.000000''], 1) \<and>
   snd (write_vertex ex_py (0, 0, 0) 0 (vtx [xyz ''normal'' ''1'' ''0'' ''0''])) = 0 \<and>
   elem_find (fst (write_vertex ex_py (0, 0, 0) 0 (vtx [xyz ''normal'' ''1'' ''0'' ''0'']))) ''normal'' =
     Some (xyz ''normal'' ''0.000000'' ''1.000000'' ''0.000000'') \<and>
   write_vertex ex_py (0, 0, 0) 0 (vtx [xyz ''position'' ''1'' ''0'' ''0'']) =
     (vtx [xyz ''position'' ''1'' ''0'' ''0''], 0)"
proof -
  let ?v = "vtx [xyz ''position'' ''1'' ''0'' ''0'']"
  have n: "elem_find ?v ''normal'' = None"
    by (simp add: elem_find_def vtx_def xyz_def el_def)
  from write_vertex_normal [of 0 ex_py "(0, 0, 0)" ?v] n
  have c: "write_vertex ex_py (0, 0, 0) 0 ?v = (?v, 0)" by blast
  have a: "write_vertex ex_py (0, 0, 2) 2 ?v =
     (vtx [xyz ''position'' ''1'' ''0'' ''0'', xyz ''normal'' ''0.000000'' ''0.000000'' ''1.000000''], 1)"
    by (simp add: write_vertex_def put_normal_def find_index_def final_normal_def normalize_def
          v_mul_def vlength_def float_simps threshold_less_1 xyz_strings_def ex_py_def vtx_def
          xyz_def el_def new_normal_def set_xyz_def)
  have b: "snd (write_vertex ex_py (0, 0, 0) 0 (vtx [xyz ''normal'' ''1'' ''0'' ''0''])) = 0 \<and>
   elem_find (fst (write_vertex ex_py (0, 0, 0) 0 (vtx [xyz ''normal'' ''1'' ''0'' ''0'']))) ''normal'' =
     Some (xyz ''normal'' ''0.000000'' ''1.000000'' ''0.000000'')"
    by (simp add: write_vertex_def put_normal_def find_index_def elem_find_def vtx_def xyz_def
          el_def set_xyz_def)
  from a b c show ?thesis by simp
qed

text \<open>
  Beyond the claims (X2): a face with an index at or above the vertex count, or with an
  index attribute that is not an integer, leaves the accumulators, the counts and the
  face total as they are, and the loop goes on with the remaining faces.
\<close>

theorem face_at_or_above_count_skipped:
  assumes "face_indices py face = None \<or>
           (\<exists>a b c. face_indices py face = Some (a, b, c) \<and>
              (int (length positions) \<le> a \<or> int (length positions) \<le> b \<or>
               int (length positions) \<le> c))"
  shows "accumulate_face py positions face ac = Some ac \<and>
         fold_opt (accumulate_face py positions) (face # rest) ac =
           fold_opt (accumulate_face py positions) rest ac"
proof -
  have "accumulate_face py positions face ac = Some ac"
    using assms by (auto simp: accumulate_face_def)
  then show ?thesis by simp
qed

text \<open>
  X2, witness: with three vertices the face (0, 1, 3) is skipped and the face after it
  is processed.
\<close>

theorem face_at_or_above_count_skipped_witness:
  "accumulate ex_py [(0, 0, 0), (1, 0, 0), (0, 1, 0)] [face3 ''0'' ''1'' ''3'', face3 ''0'' ''1'' ''2''] =
     accumulate ex_py [(0, 0, 0), (1, 0, 0), (0, 1, 0)] [face3 ''0'' ''1'' ''2'']"
proof -
  have three: "py_int ex_py ''3'' = Some 3"
    by (simp add: ex_py_def dec_int_def digit_val_def)
  have fi: "face_indices ex_py (face3 ''0'' ''1'' ''3'') = Some (0, 1, 3)"
    by (simp add: face3_indices ex_py_simps three)
  have "face_indices ex_py (face3 ''0'' ''1'' ''3'') = None \<or>
           (\<exists>a b c. face_indices ex_py (face3 ''0'' ''1'' ''3'') = Some (a, b, c) \<and>
              (int (length [(0::real, 0::real, 0::real), (1, 0, 0), (0, 1, 0)]) \<le> a \<or>
               int (length [(0::real, 0::real, 0::real), (1, 0, 0), (0, 1, 0)]) \<le> b \<or>
               int (length [(0::real, 0::real, 0::real), (1, 0, 0), (0, 1, 0)]) \<le> c))"
    by (simp add: fi)
  from face_at_or_above_count_skipped [OF this,
      of "accum_init (length [(0::real, 0::real, 0::real), (1, 0, 0), (0, 1, 0)])"
         "[face3 ''0'' ''1'' ''2'']"]
  show ?thesis unfolding accumulate_def by (rule conjunct2)
qed

end
